theory Spec2Isabelle
  imports Complex_Main "HOL-Library.Sublist"
begin

text \<open>
  A model of the back end of the items service: the search filter
  (\<open>services/searchService.js\<close>), the item cache and the \<open>GET /api/items\<close> handler
  (\<open>routes/items.js\<close>), and the aggregator and its cache
  (\<open>services/statsService.js\<close>). Module variables become fields of a state record that
  each operation takes and returns; the clock and the outcome of file reads are
  arguments; an exception is the \<open>Inl\<close> side of a sum. Numbers are IEEE 754 doubles,
  modelled by their exact values and the rounding of each operation.
\<close>

section \<open>JavaScript strings\<close>

text \<open>
  A string is a list of code units. The model covers the code units below 256 (ASCII and
  the Latin-1 supplement), which is what \<^typ>\<open>char\<close> holds; on this range the three
  built-ins used by the search service are modelled exactly:
  \<^item> \<open>String.prototype.toLowerCase\<close> maps A..Z (65..90) and the accented capitals
    192..222 other than the multiplication sign 215 to the code unit 32 above;
  \<^item> \<open>String.prototype.trim\<close> strips TAB, LF, VT, FF, CR, SPACE and NBSP from both
    ends;
  \<^item> \<open>String.prototype.includes\<close> tests for an occurrence at some position.
\<close>

definition isWhiteSpace :: "char \<Rightarrow> bool" where
  "isWhiteSpace c = (of_char c \<in> {9, 10, 11, 12, 13, 32, 160 :: nat})"

definition isUpper :: "char \<Rightarrow> bool" where
  "isUpper c = (let n = (of_char c :: nat)
                in (65 \<le> n \<and> n \<le> 90) \<or> (192 \<le> n \<and> n \<le> 222 \<and> n \<noteq> 215))"

definition lowerChar :: "char \<Rightarrow> char" where
  "lowerChar c = (if isUpper c then char_of ((of_char c :: nat) + 32) else c)"

definition toLowerCase :: "string \<Rightarrow> string" where
  "toLowerCase s = map lowerChar s"

definition trim :: "string \<Rightarrow> string" where
  "trim s = rev (dropWhile isWhiteSpace (rev (dropWhile isWhiteSpace s)))"

fun str_includes :: "string \<Rightarrow> string \<Rightarrow> bool" where
  "str_includes [] t = (t = [])"
| "str_includes (c # s) t = (prefix t (c # s) \<or> str_includes s t)"

section \<open>Items\<close>

text \<open>
  An item of \<open>data/items.json\<close>. A text field is \<open>None\<close> when the property is absent
  (or \<open>null\<close>) and \<open>Some s\<close> when it is the string \<open>s\<close>. The only use the code makes of
  \<open>price\<close> is \<open>parseFloat(item.price)\<close>, so the field is modelled by what
  \<open>parseFloat\<close> reads in it: \<open>PNumber r\<close> for a price written as the decimal number
  \<open>r\<close> (a JSON number, or a string that starts with one), \<open>PNotNumeric\<close> for a value
  on which \<open>parseFloat\<close> returns \<open>NaN\<close> (absent, \<open>null\<close>, a non-numeric string).
  What \<open>parseFloat\<close> returns for \<open>PNumber r\<close> is the double nearest to \<open>r\<close>, an
  infinity when \<open>r\<close> is beyond the range of the doubles (as it is for the text
  \<open>Infinity\<close>).
\<close>

datatype jsprice = PNumber rat | PNotNumeric

record item =
  item_id :: int
  name :: "string option"
  description :: "string option"
  category :: "string option"
  price :: jsprice

text \<open>\<open>(field || '')\<close>: an absent field and the empty string both give the empty string.\<close>

definition orEmpty :: "string option \<Rightarrow> string" where
  "orEmpty f = (case f of None \<Rightarrow> [] | Some s \<Rightarrow> s)"

section \<open>searchService.js\<close>

definition filterItems :: "item list \<Rightarrow> string \<Rightarrow> item list" where
  "filterItems xs query =
     (if query = [] \<or> trim query = [] then xs
      else
        let searchTerm = trim (toLowerCase query)
        in filter (\<lambda>item.
             let name' = toLowerCase (orEmpty (name item));
                 description' = toLowerCase (orEmpty (description item));
                 category' = toLowerCase (orEmpty (category item))
             in str_includes name' searchTerm \<or>
                str_includes description' searchTerm \<or>
                str_includes category' searchTerm) xs)"

text \<open>
  The specification's reading of a match: the normalised query (trimmed, then lower-cased)
  occurs as a contiguous substring of the lower-cased name, description or category, an
  absent field counting as the empty string.
\<close>

definition spec_normalize :: "string \<Rightarrow> string" where
  "spec_normalize query = toLowerCase (trim query)"

definition spec_matches :: "string \<Rightarrow> item \<Rightarrow> bool" where
  "spec_matches needle item =
     (sublist needle (toLowerCase (orEmpty (name item))) \<or>
      sublist needle (toLowerCase (orEmpty (description item))) \<or>
      sublist needle (toLowerCase (orEmpty (category item))))"

section \<open>Doubles\<close>

text \<open>
  A finite double is modelled by its exact value, a rational number; the two zeros are
  identified. \<open>fl\<close> is rounding to the nearest double, ties to the even significand:
  the magnitude is rounded to a multiple of \<open>2^(e - 52)\<close>, where \<open>2^e\<close> is the largest
  power of two not above it and \<open>e\<close> is at least \<open>-1022\<close> (below that the spacing is
  the subnormal one, \<open>2^(-1074)\<close>); the result is \<open>None\<close>, an overflow, when the
  rounded magnitude reaches \<open>2^1024\<close>.
\<close>

function bitLength :: "int \<Rightarrow> nat" where
  "bitLength n = (if n \<le> 0 then 0 else Suc (bitLength (n div 2)))"
  by pat_completeness auto
termination
  by (relation "measure nat") auto

declare bitLength.simps [simp del]

definition twoPow :: "int \<Rightarrow> rat" where
  "twoPow k = 2 powi k"

text \<open>
  The exponent \<open>e\<close> with \<open>2^e \<le> a < 2^(e + 1)\<close>, for a positive \<open>a\<close>: the difference of
  the bit lengths of numerator and denominator, or one less.
\<close>

definition log2floor :: "rat \<Rightarrow> int" where
  "log2floor a =
     (let d = int (bitLength (fst (quotient_of a))) -
              int (bitLength (snd (quotient_of a)))
      in if twoPow d \<le> a then d else d - 1)"

definition roundHalfEven :: "rat \<Rightarrow> int" where
  "roundHalfEven x =
     (let n = \<lfloor>x\<rfloor>; d = x - of_int n
      in if d < 1 / 2 then n else if 1 / 2 < d then n + 1 else if even n then n else n + 1)"

definition roundMagnitude :: "rat \<Rightarrow> rat" where
  "roundMagnitude a =
     (let e = max (log2floor a) (- 1022);
          u = twoPow (e - 52)
      in of_int (roundHalfEven (a / u)) * u)"

definition fl :: "rat \<Rightarrow> rat option" where
  "fl x =
     (if x = 0 then Some 0
      else
        let v = roundMagnitude \<bar>x\<bar>
        in if twoPow 1024 \<le> v then None else Some (if x < 0 then - v else v))"

section \<open>Numbers of the items route\<close>

text \<open>
  The page arithmetic works on what \<open>parseInt\<close> returns: \<open>NaN\<close>, an infinity, or a
  double whose value is an integer. \<open>res.json\<close> writes \<open>NaN\<close> and the infinities as
  \<open>null\<close>, so a number of the response body is an integer or \<open>null\<close>.
\<close>

datatype jsnum = Num int | NaN | Infinity | NegInfinity

datatype json_number = JNum int | JNull

definition isDigit :: "char \<Rightarrow> bool" where
  "isDigit c = (48 \<le> (of_char c :: nat) \<and> (of_char c :: nat) \<le> 57)"

definition digitsValue :: "string \<Rightarrow> int" where
  "digitsValue ds = foldl (\<lambda>acc c. 10 * acc + (of_char c - 48)) 0 ds"

text \<open>
  The Number for a sign and the integer a digit string denotes: that integer rounded to
  the nearest double, an infinity beyond the range of the doubles. (The language lets an
  implementation approximate after the 20th significant digit; Node rounds correctly.)
\<close>

definition integerToNumber :: "bool \<Rightarrow> int \<Rightarrow> jsnum" where
  "integerToNumber neg n =
     (case fl (of_int n) of
        None \<Rightarrow> if neg then NegInfinity else Infinity
      | Some r \<Rightarrow> Num ((if neg then - 1 else 1) * \<lfloor>r\<rfloor>))"

text \<open>
  \<open>parseInt(s, 10)\<close>: skip leading white space, read an optional sign, then the longest
  run of decimal digits; \<open>NaN\<close> when that run is empty. With the radix given as 10 no
  \<open>0x\<close> prefix is recognised.
\<close>

definition parseInt :: "string \<Rightarrow> jsnum" where
  "parseInt s =
     (let t = dropWhile isWhiteSpace s;
          neg = (t \<noteq> [] \<and> hd t = CHR ''-'');
          u = (if t \<noteq> [] \<and> (hd t = CHR ''+'' \<or> hd t = CHR ''-'') then tl t else t);
          z = takeWhile isDigit u
      in if z = [] then NaN else integerToNumber neg (digitsValue z))"

text \<open>
  Subtraction, multiplication and addition. With \<open>NaN\<close> or an infinity among the operands
  the result is the one IEEE 754 gives. On two finite operands the model computes the exact
  integer. The double the code computes differs from it only where the magnitude is
  \<open>2^53\<close> or more, and then both lie on the same side of zero; the index arithmetic below
  feeds \<open>slice\<close> only, which clamps such values to the same end of the array (an array is
  shorter than \<open>2^32\<close>).
\<close>

fun num_neg :: "jsnum \<Rightarrow> jsnum" where
  "num_neg (Num x) = Num (- x)"
| "num_neg NaN = NaN"
| "num_neg Infinity = NegInfinity"
| "num_neg NegInfinity = Infinity"

fun num_add :: "jsnum \<Rightarrow> jsnum \<Rightarrow> jsnum" where
  "num_add (Num x) (Num y) = Num (x + y)"
| "num_add NaN b = NaN"
| "num_add a NaN = NaN"
| "num_add Infinity NegInfinity = NaN"
| "num_add NegInfinity Infinity = NaN"
| "num_add Infinity b = Infinity"
| "num_add a Infinity = Infinity"
| "num_add NegInfinity b = NegInfinity"
| "num_add a NegInfinity = NegInfinity"

definition num_sub :: "jsnum \<Rightarrow> jsnum \<Rightarrow> jsnum" where
  "num_sub a b = num_add a (num_neg b)"

fun num_mul :: "jsnum \<Rightarrow> jsnum \<Rightarrow> jsnum" where
  "num_mul (Num x) (Num y) = Num (x * y)"
| "num_mul NaN b = NaN"
| "num_mul a NaN = NaN"
| "num_mul (Num x) b = (if x = 0 then NaN else if 0 < x then b else num_neg b)"
| "num_mul a (Num y) = (if y = 0 then NaN else if 0 < y then a else num_neg a)"
| "num_mul Infinity b = b"
| "num_mul NegInfinity b = num_neg b"

definition toJSON :: "jsnum \<Rightarrow> json_number" where
  "toJSON a = (case a of Num x \<Rightarrow> JNum x | _ \<Rightarrow> JNull)"

text \<open>
  \<open>Math.ceil(len / limitNum)\<close> as it appears in the body. For a \<open>NaN\<close> or zero divisor
  the quotient is \<open>NaN\<close> or infinite: \<open>null\<close>. For an infinite divisor the quotient is
  zero. For any other divisor the quotient of the doubles, rounded to a double and then
  up to an integer, is the exact quotient rounded up: an array length is below \<open>2^32\<close>,
  so no quotient that is not an integer rounds to one.
\<close>

definition ceilDiv :: "nat \<Rightarrow> jsnum \<Rightarrow> json_number" where
  "ceilDiv len d =
     (case d of
        Num l \<Rightarrow> if l = 0 then JNull else JNum (- ((- int len) div l))
      | NaN \<Rightarrow> JNull
      | Infinity \<Rightarrow> JNum 0
      | NegInfinity \<Rightarrow> JNum 0)"

text \<open>
  \<open>slice(start, end)\<close> of arrays and of strings: \<open>NaN\<close> counts as 0, a negative index
  counts from the end, both indices are clamped to the length, and an end before the
  start gives the empty sequence.
\<close>

definition relativeIndex :: "nat \<Rightarrow> jsnum \<Rightarrow> int" where
  "relativeIndex len a =
     (case a of
        Num r \<Rightarrow> if r < 0 then max (int len + r) 0 else min r (int len)
      | NaN \<Rightarrow> 0
      | Infinity \<Rightarrow> int len
      | NegInfinity \<Rightarrow> 0)"

definition slice :: "'a list \<Rightarrow> jsnum \<Rightarrow> jsnum \<Rightarrow> 'a list" where
  "slice xs start end' =
     (let k = relativeIndex (length xs) start;
          final = relativeIndex (length xs) end'
      in take (nat (final - k)) (drop (nat k) xs))"

section \<open>JavaScript values\<close>

text \<open>
  The values the data file can parse to and \<open>getItemsFn\<close> can resolve with. An array
  is an array of items.
\<close>

datatype jsvalue =
    Undefined
  | Null
  | Boolean bool
  | Number rat
  | String string
  | Object "(string \<times> jsvalue) list"
  | Array "item list"

definition isArray :: "jsvalue \<Rightarrow> bool" where
  "isArray v = (case v of Array xs \<Rightarrow> True | _ \<Rightarrow> False)"

text \<open>What counts as true in a condition: everything but \<open>undefined\<close>, \<open>null\<close>,
  \<open>false\<close>, zero and the empty string.\<close>

definition truthy :: "jsvalue \<Rightarrow> bool" where
  "truthy v =
     (case v of
        Undefined \<Rightarrow> False
      | Null \<Rightarrow> False
      | Boolean b \<Rightarrow> b
      | Number r \<Rightarrow> r \<noteq> 0
      | String s \<Rightarrow> s \<noteq> []
      | Object kvs \<Rightarrow> True
      | Array xs \<Rightarrow> True)"

section \<open>routes/items.js: the item cache\<close>

text \<open>
  The module state is \<open>itemsCache\<close>, initially \<open>null\<close>, and \<open>itemsCacheTimestamp\<close>;
  \<open>readFileCalls\<close> is instrumentation counting the calls of \<open>fs.readFile\<close>.
  \<open>Date.now()\<close> is passed in. What \<open>fs.readFile\<close> and \<open>JSON.parse\<close> produce is the
  \<open>read_outcome\<close>: the read rejects, the parse throws, or the file parses to a value.
\<close>

datatype error = FailedToReadItemsData | TypeError

datatype read_outcome = ReadRejects | ParseThrows | FileContent jsvalue

record items_module =
  itemsCache :: jsvalue
  itemsCacheTimestamp :: int
  readFileCalls :: nat

definition ITEMS_CACHE_TTL :: int where
  "ITEMS_CACHE_TTL = 30000"


text \<open>The test of line 81: \<open>itemsCache && (now - itemsCacheTimestamp) < CACHE_TTL\<close>.\<close>

definition itemsCacheValid :: "items_module \<Rightarrow> int \<Rightarrow> bool" where
  "itemsCacheValid st now =
     (truthy (itemsCache st) \<and> now - itemsCacheTimestamp st < ITEMS_CACHE_TTL)"

text \<open>
  An \<open>async\<close> function runs to its first pending \<open>await\<close> without interruption and
  resumes, again without interruption, when the awaited promise settles. \<open>getItems\<close> has
  one such \<open>await\<close>, on \<open>fs.readFile\<close>. Its first segment either returns the cached
  value or issues the read and suspends, remembering \<open>now\<close>; its second segment runs on
  the outcome of the read.
\<close>

datatype 'a suspended = Returned 'a | Awaiting int

definition getItems_start :: "items_module \<Rightarrow> int \<Rightarrow> jsvalue suspended \<times> items_module" where
  "getItems_start st now =
     (if itemsCacheValid st now then (Returned (itemsCache st), st)
      else (Awaiting now, st\<lparr>readFileCalls := readFileCalls st + 1\<rparr>))"

definition getItems_resume ::
  "int \<Rightarrow> read_outcome \<Rightarrow> items_module \<Rightarrow> (error + jsvalue) \<times> items_module" where
  "getItems_resume now outcome st =
     (case outcome of
        FileContent v \<Rightarrow> (Inr v, st\<lparr>itemsCache := v, itemsCacheTimestamp := now\<rparr>)
      | _ \<Rightarrow> (Inl FailedToReadItemsData, st))"

text \<open>A call of \<open>getItems\<close> that no other task interleaves with.\<close>

definition getItems ::
  "items_module \<Rightarrow> int \<Rightarrow> read_outcome \<Rightarrow> (error + jsvalue) \<times> items_module" where
  "getItems st now outcome =
     (case getItems_start st now of
        (Returned v, st') \<Rightarrow> (Inr v, st')
      | (Awaiting t, st') \<Rightarrow> getItems_resume t outcome st')"

section \<open>routes/items.js: GET /api/items\<close>

text \<open>
  \<open>req.query\<close>: each parameter is absent or a value of the query string parser: a
  string, an array (a repeated key) or an object (a bracketed key).
\<close>

datatype qvalue =
    QString string
  | QArray "qvalue list"
  | QObject "(string \<times> qvalue) list"

record req_query =
  page :: "qvalue option"
  limit :: "qvalue option"
  q :: "qvalue option"

text \<open>
  \<open>parseInt\<close> first converts its argument to a string. A string is itself; an array is
  its elements, converted, joined by commas; an object is \<open>[object Object]\<close>, unless it
  has a property of its own named \<open>toString\<close>, which is then no function and leaves
  the conversion without a primitive: a \<open>TypeError\<close>.
\<close>

fun joinStrings :: "string list \<Rightarrow> string" where
  "joinStrings [] = []"
| "joinStrings [s] = s"
| "joinStrings (s # t # ss) = s @ '','' @ joinStrings (t # ss)"

fun firstError :: "(error + string) list \<Rightarrow> error option" where
  "firstError [] = None"
| "firstError (Inl e # rs) = Some e"
| "firstError (Inr s # rs) = firstError rs"

fun toStringQ :: "qvalue \<Rightarrow> error + string" where
  "toStringQ (QString s) = Inr s"
| "toStringQ (QArray vs) =
     (case firstError (map toStringQ vs) of
        Some e \<Rightarrow> Inl e
      | None \<Rightarrow> Inr (joinStrings (map (\<lambda>v. projr (toStringQ v)) vs)))"
| "toStringQ (QObject kvs) =
     (if ''toString'' \<in> set (map fst kvs) then Inl TypeError else Inr ''[object Object]'')"

record pagination_meta =
  currentPage :: json_number
  totalPages :: json_number
  totalItems :: nat
  itemsPerPage :: json_number

record 'a items_response =
  items :: "'a list"
  pagination :: pagination_meta

text \<open>
  Lines 116 to 131: the page arithmetic and the body, on the parsed numbers. The
  sequence is an array of items or, when the file holds a JSON string, a string.
\<close>

definition paginate :: "'a list \<Rightarrow> jsnum \<Rightarrow> jsnum \<Rightarrow> 'a items_response" where
  "paginate filteredItems pageNum limitNum =
     (let startIndex = num_mul (num_sub pageNum (Num 1)) limitNum;
          endIndex = num_add startIndex limitNum;
          paginatedItems = slice filteredItems startIndex endIndex
      in \<lparr>items = paginatedItems,
          pagination = \<lparr>currentPage = toJSON pageNum,
                        totalPages = ceilDiv (length filteredItems) limitNum,
                        totalItems = length filteredItems,
                        itemsPerPage = toJSON limitNum\<rparr>\<rparr>)"

text \<open>
  The destructuring defaults \<open>page = 1, limit = 10, q = ''\<close> apply to an absent parameter
  only; \<open>parseInt(1, 10)\<close> is 1 and \<open>parseInt(10, 10)\<close> is 10.
\<close>

definition parseIntQ :: "qvalue \<Rightarrow> error + jsnum" where
  "parseIntQ v = (case toStringQ v of Inl e \<Rightarrow> Inl e | Inr s \<Rightarrow> Inr (parseInt s))"

definition pageNumOf :: "req_query \<Rightarrow> error + jsnum" where
  "pageNumOf rq = (case page rq of None \<Rightarrow> Inr (Num 1) | Some v \<Rightarrow> parseIntQ v)"

definition limitNumOf :: "req_query \<Rightarrow> error + jsnum" where
  "limitNumOf rq = (case limit rq of None \<Rightarrow> Inr (Num 10) | Some v \<Rightarrow> parseIntQ v)"

text \<open>
  Lines 110 to 113. An absent or empty \<open>q\<close> skips the filter. A \<open>q\<close> that is not a
  string has no \<open>trim\<close> method: \<open>filterItems\<close> throws a \<open>TypeError\<close>. A blank
  string makes \<open>filterItems\<close> return its argument untouched, whatever it is; any other
  string makes it call \<open>items.filter\<close>, which only an array has.
\<close>

definition queryFilter :: "jsvalue \<Rightarrow> qvalue option \<Rightarrow> error + jsvalue" where
  "queryFilter content qv =
     (case qv of
        None \<Rightarrow> Inr content
      | Some (QString s) \<Rightarrow>
          if s = [] then Inr content
          else (case content of
                  Array xs \<Rightarrow> Inr (Array (filterItems xs s))
                | _ \<Rightarrow> if trim s = [] then Inr content else Inl TypeError)
      | Some _ \<Rightarrow> Inl TypeError)"

text \<open>
  The body of the response. \<open>slice\<close> and \<open>length\<close> exist on arrays and on strings;
  on any other value of \<open>filteredItems\<close> the call of \<open>slice\<close> throws a
  \<open>TypeError\<close>. Every error on the way is a \<open>TypeError\<close>, so the order of the steps
  shows in no result.
\<close>

datatype route_body = ArrayBody "item items_response" | StringBody "char items_response"

definition items_body :: "jsvalue \<Rightarrow> req_query \<Rightarrow> error + route_body" where
  "items_body content rq =
     (case queryFilter content (q rq) of
        Inl e \<Rightarrow> Inl e
      | Inr filteredItems \<Rightarrow>
          (case pageNumOf rq of
             Inl e \<Rightarrow> Inl e
           | Inr pageNum \<Rightarrow>
               (case limitNumOf rq of
                  Inl e \<Rightarrow> Inl e
                | Inr limitNum \<Rightarrow>
                    (case filteredItems of
                       Array xs \<Rightarrow> Inr (ArrayBody (paginate xs pageNum limitNum))
                     | String s \<Rightarrow> Inr (StringBody (paginate s pageNum limitNum))
                     | _ \<Rightarrow> Inl TypeError))))"

text \<open>
  The handler: an error of \<open>getItems\<close> or of the steps after it goes to \<open>next(error)\<close>,
  otherwise the body is sent.
\<close>

definition items_route ::
  "items_module \<Rightarrow> int \<Rightarrow> read_outcome \<Rightarrow> req_query \<Rightarrow> (error + route_body) \<times> items_module" where
  "items_route st now outcome rq =
     (case getItems st now outcome of
        (Inl e, st') \<Rightarrow> (Inl e, st')
      | (Inr content, st') \<Rightarrow> (items_body content rq, st'))"

section \<open>services/statsService.js: calculateStats\<close>

text \<open>
  The prices are doubles: a finite value, an infinity or \<open>NaN\<close>. Each operation
  computes the exact result and rounds it with \<open>fl\<close>.
\<close>

datatype jsdouble = Finite rat | PlusInfinity | MinusInfinity | NotANumber

definition toDouble :: "rat \<Rightarrow> jsdouble" where
  "toDouble x =
     (case fl x of
        Some r \<Rightarrow> Finite r
      | None \<Rightarrow> if 0 < x then PlusInfinity else MinusInfinity)"

fun double_add :: "jsdouble \<Rightarrow> jsdouble \<Rightarrow> jsdouble" where
  "double_add (Finite a) (Finite b) = toDouble (a + b)"
| "double_add NotANumber b = NotANumber"
| "double_add a NotANumber = NotANumber"
| "double_add PlusInfinity MinusInfinity = NotANumber"
| "double_add MinusInfinity PlusInfinity = NotANumber"
| "double_add PlusInfinity b = PlusInfinity"
| "double_add a PlusInfinity = PlusInfinity"
| "double_add MinusInfinity b = MinusInfinity"
| "double_add a MinusInfinity = MinusInfinity"

text \<open>Division by the length of an array, which is a double exactly.\<close>

definition double_div_length :: "jsdouble \<Rightarrow> nat \<Rightarrow> jsdouble" where
  "double_div_length a n =
     (case a of
        Finite s \<Rightarrow>
          if n = 0 then (if s = 0 then NotANumber else if 0 < s then PlusInfinity else MinusInfinity)
          else toDouble (s / of_nat n)
      | NotANumber \<Rightarrow> NotANumber
      | other \<Rightarrow> other)"

text \<open>\<open>Math.min\<close> and \<open>Math.max\<close> of two numbers: \<open>NaN\<close> if either is.\<close>

fun double_le :: "jsdouble \<Rightarrow> jsdouble \<Rightarrow> bool" where
  "double_le (Finite a) (Finite b) = (a \<le> b)"
| "double_le NotANumber b = False"
| "double_le a NotANumber = False"
| "double_le MinusInfinity b = True"
| "double_le a PlusInfinity = True"
| "double_le a b = False"

definition double_min :: "jsdouble \<Rightarrow> jsdouble \<Rightarrow> jsdouble" where
  "double_min a b =
     (if a = NotANumber \<or> b = NotANumber then NotANumber else if double_le a b then a else b)"

definition double_max :: "jsdouble \<Rightarrow> jsdouble \<Rightarrow> jsdouble" where
  "double_max a b =
     (if a = NotANumber \<or> b = NotANumber then NotANumber else if double_le a b then b else a)"

text \<open>
  \<open>parseFloat(x.toFixed(2))\<close>. \<open>toFixed\<close> prints \<open>NaN\<close> and the infinities by name
  and a magnitude of \<open>10^21\<close> or more as \<open>toString\<close> does, and \<open>parseFloat\<close> reads
  the same number back. Otherwise it sets the sign aside, takes the integer \<open>n\<close> with
  \<open>n / 100\<close> nearest to the exact magnitude, the larger one of two equally near, and
  prints \<open>n / 100\<close> with the sign; \<open>parseFloat\<close> reads the double nearest to that.
\<close>

definition toFixed2 :: "jsdouble \<Rightarrow> jsdouble" where
  "toFixed2 x =
     (case x of
        Finite r \<Rightarrow>
          if 10 ^ 21 \<le> \<bar>r\<bar> then Finite r
          else toDouble ((if r < 0 then - 1 else 1) * (of_int \<lfloor>\<bar>r\<bar> * 100 + 1 / 2\<rfloor> / 100))
      | other \<Rightarrow> other)"

text \<open>\<open>parseFloat(item.price)\<close>: the double nearest to the number written.\<close>

definition parseFloat :: "jsprice \<Rightarrow> jsdouble" where
  "parseFloat p = (case p of PNumber r \<Rightarrow> toDouble r | PNotNumeric \<Rightarrow> NotANumber)"

text \<open>
  \<open>categories\<close> is the object literal \<open>{}\<close>: its own properties are a map from keys to
  values, and a key it does not own is looked up on \<open>Object.prototype\<close>. A value stored
  by \<open>(categories[category] || 0) + 1\<close> is a number or, when the left operand was not a
  number, a string.
\<close>

datatype catval = Count nat | Text string

type_synonym categories_obj = "string \<rightharpoonup> catval"

text \<open>
  The properties every object inherits from \<open>Object.prototype\<close>, with the string each
  becomes as the left operand of \<open>+\<close> (as Node prints a built-in function).
  \<open>__proto__\<close> is an accessor: reading it gives \<open>Object.prototype\<close> itself, and
  assigning a primitive to it changes nothing.
\<close>

definition objectPrototypeMethods :: "string list" where
  "objectPrototypeMethods =
     [''__defineGetter__'', ''__defineSetter__'', ''hasOwnProperty'', ''__lookupGetter__'',
      ''__lookupSetter__'', ''isPrototypeOf'', ''propertyIsEnumerable'', ''toString'',
      ''valueOf'', ''toLocaleString'']"

definition inheritedAsString :: "string \<Rightarrow> string option" where
  "inheritedAsString k =
     (if k = ''__proto__'' then Some ''[object Object]''
      else if k = ''constructor'' then Some ''function Object() { [native code] }''
      else if k \<in> set objectPrototypeMethods
        then Some (''function '' @ k @ ''() { [native code] }'')
      else None)"

text \<open>
  \<open>categories[category] = (categories[category] || 0) + 1\<close>. An own count is
  incremented; an own string (never empty) has \<open>1\<close> appended; an absent key that
  \<open>Object.prototype\<close> defines reads as a function or object, which is truthy, so the sum
  is a string; any other absent key reads \<open>undefined\<close> and the sum is 1.
\<close>

definition bumpCategory :: "categories_obj \<Rightarrow> string \<Rightarrow> categories_obj" where
  "bumpCategory cats k =
     (case cats k of
        Some (Count n) \<Rightarrow> cats(k \<mapsto> Count (n + 1))
      | Some (Text s) \<Rightarrow> cats(k \<mapsto> Text (s @ ''1''))
      | None \<Rightarrow>
          (case inheritedAsString k of
             None \<Rightarrow> cats(k \<mapsto> Count 1)
           | Some s \<Rightarrow> if k = ''__proto__'' then cats else cats(k \<mapsto> Text (s @ ''1''))))"

text \<open>\<open>item.category || 'uncategorized'\<close>.\<close>

definition categoryOf :: "item \<Rightarrow> string" where
  "categoryOf item =
     (case category item of None \<Rightarrow> ''uncategorized''
      | Some s \<Rightarrow> if s = [] then ''uncategorized'' else s)"

record stats =
  totalItems :: nat
  averagePrice :: jsdouble
  minPrice :: jsdouble
  maxPrice :: jsdouble
  categories :: categories_obj

definition zeroStats :: stats where
  "zeroStats = \<lparr>totalItems = 0, averagePrice = Finite 0, minPrice = Finite 0,
                 maxPrice = Finite 0, categories = Map.empty\<rparr>"

definition calculateStats :: "jsvalue \<Rightarrow> stats" where
  "calculateStats v =
     (case v of
        Array xs \<Rightarrow>
          if xs = [] then zeroStats
          else
            let prices = filter (\<lambda>p. p \<noteq> NotANumber) (map (\<lambda>item. parseFloat (price item)) xs);
                cats = foldl (\<lambda>cats item. bumpCategory cats (categoryOf item)) Map.empty xs
            in \<lparr>totalItems = length xs,
                averagePrice = (if length prices > 0
                                then toFixed2 (double_div_length
                                       (foldl double_add (Finite 0) prices) (length prices))
                                else Finite 0),
                minPrice = (case prices of [] \<Rightarrow> Finite 0 | p # ps \<Rightarrow> foldl double_min p ps),
                maxPrice = (case prices of [] \<Rightarrow> Finite 0 | p # ps \<Rightarrow> foldl double_max p ps),
                categories = cats\<rparr>
      | _ \<Rightarrow> zeroStats)"

section \<open>services/statsService.js: the stats cache\<close>

text \<open>
  The module state is \<open>statsCache\<close>, \<open>statsCacheTimestamp\<close>, \<open>cacheTimeout\<close> (a timer
  handle or \<open>null\<close>) and \<open>watcher\<close> (a watcher handle or \<open>null\<close>). The run-time
  environment holds the timers that are still pending and the watchers that are open;
  \<open>nextHandle\<close> is the next fresh handle. \<open>getItemsFnCalls\<close> is instrumentation
  counting the calls of the \<open>getItemsFn\<close> argument.
\<close>

record stats_module =
  statsCache :: "stats option"
  statsCacheTimestamp :: int
  cacheTimeout :: "nat option"
  watcher :: "nat option"
  pendingTimers :: "nat list"
  openWatchers :: "nat list"
  nextHandle :: nat
  getItemsFnCalls :: nat

definition STATS_CACHE_TTL :: int where
  "STATS_CACHE_TTL = 60000"

definition initial_stats_module :: stats_module where
  "initial_stats_module =
     \<lparr>statsCache = None, statsCacheTimestamp = 0, cacheTimeout = None, watcher = None,
      pendingTimers = [], openWatchers = [], nextHandle = 0, getItemsFnCalls = 0\<rparr>"

definition clearTimeout :: "nat \<Rightarrow> stats_module \<Rightarrow> stats_module" where
  "clearTimeout h st = st\<lparr>pendingTimers := removeAll h (pendingTimers st)\<rparr>"

definition invalidateCache :: "stats_module \<Rightarrow> stats_module" where
  "invalidateCache st =
     (let st1 = st\<lparr>statsCache := None, statsCacheTimestamp := 0\<rparr>
      in case cacheTimeout st1 of
           Some h \<Rightarrow> (clearTimeout h st1)\<lparr>cacheTimeout := None\<rparr>
         | None \<Rightarrow> st1)"

definition initFileWatcher :: "stats_module \<Rightarrow> stats_module" where
  "initFileWatcher st =
     (let st1 = (case watcher st of
                   Some w \<Rightarrow> st\<lparr>openWatchers := removeAll w (openWatchers st)\<rparr>
                 | None \<Rightarrow> st)
      in st1\<lparr>watcher := Some (nextHandle st1),
             openWatchers := nextHandle st1 # openWatchers st1,
             nextHandle := nextHandle st1 + 1\<rparr>)"

text \<open>The callback of \<open>fs.watch\<close> on an event of the open watcher \<open>w\<close>.\<close>

definition watchEvent :: "nat \<Rightarrow> bool \<Rightarrow> stats_module \<Rightarrow> stats_module" where
  "watchEvent w isChange st =
     (if w \<in> set (openWatchers st) \<and> isChange then invalidateCache st else st)"

text \<open>The callback of \<open>setTimeout\<close>, run when the pending timer \<open>h\<close> fires.\<close>

definition timerFires :: "nat \<Rightarrow> stats_module \<Rightarrow> stats_module" where
  "timerFires h st =
     (if h \<in> set (pendingTimers st)
      then st\<lparr>statsCache := None, statsCacheTimestamp := 0,
              pendingTimers := removeAll h (pendingTimers st)\<rparr>
      else st)"

definition statsCacheValid :: "stats_module \<Rightarrow> int \<Rightarrow> bool" where
  "statsCacheValid st now =
     (statsCache st \<noteq> None \<and> now - statsCacheTimestamp st < STATS_CACHE_TTL)"

text \<open>
  \<open>getCachedStats\<close> has one \<open>await\<close>, on \<open>getItemsFn()\<close>. The first segment returns the
  cached stats or calls \<open>getItemsFn\<close> and suspends; the second runs on what that promise
  settled with: a rejection propagates, a value is aggregated and cached.
\<close>

definition getCachedStats_start :: "stats_module \<Rightarrow> int \<Rightarrow> stats suspended \<times> stats_module" where
  "getCachedStats_start st now =
     (if statsCacheValid st now then (Returned (the (statsCache st)), st)
      else (Awaiting now, st\<lparr>getItemsFnCalls := getItemsFnCalls st + 1\<rparr>))"

definition getCachedStats_resume ::
  "int \<Rightarrow> error + jsvalue \<Rightarrow> stats_module \<Rightarrow> (error + stats) \<times> stats_module" where
  "getCachedStats_resume now settled st =
     (case settled of
        Inl e \<Rightarrow> (Inl e, st)
      | Inr v \<Rightarrow>
          let st1 = st\<lparr>statsCache := Some (calculateStats v), statsCacheTimestamp := now\<rparr>;
              st2 = (if watcher st1 = None then initFileWatcher st1 else st1);
              st3 = (case cacheTimeout st2 of Some h \<Rightarrow> clearTimeout h st2 | None \<Rightarrow> st2);
              st4 = st3\<lparr>cacheTimeout := Some (nextHandle st3),
                        pendingTimers := nextHandle st3 # pendingTimers st3,
                        nextHandle := nextHandle st3 + 1\<rparr>
          in (Inr (calculateStats v), st4))"

text \<open>A call of \<open>getCachedStats\<close> that no other task interleaves with.\<close>

definition getCachedStats ::
  "stats_module \<Rightarrow> int \<Rightarrow> error + jsvalue \<Rightarrow> (error + stats) \<times> stats_module" where
  "getCachedStats st now settled =
     (case getCachedStats_start st now of
        (Returned s, st') \<Rightarrow> (Inr s, st')
      | (Awaiting t, st') \<Rightarrow> getCachedStats_resume t settled st')"

text \<open>
  The states the module can be in: the initial one, and those reached from it by the
  segments of \<open>getCachedStats\<close> (in any interleaving, on any settled value),
  \<open>invalidateCache\<close>, the firing of a timer and an event of a watcher.
\<close>

inductive statsReachable :: "stats_module \<Rightarrow> bool" where
  initial: "statsReachable initial_stats_module"
| start: "statsReachable st \<Longrightarrow> statsReachable (snd (getCachedStats_start st now))"
| resume: "statsReachable st \<Longrightarrow> statsReachable (snd (getCachedStats_resume now settled st))"
| invalidate: "statsReachable st \<Longrightarrow> statsReachable (invalidateCache st)"
| timer: "statsReachable st \<Longrightarrow> statsReachable (timerFires h st)"
| watch: "statsReachable st \<Longrightarrow> statsReachable (watchEvent w isChange st)"

text \<open>Every pending timer is the one \<open>cacheTimeout\<close> refers to.\<close>

definition timersTracked :: "stats_module \<Rightarrow> bool" where
  "timersTracked st = (set (pendingTimers st) \<subseteq> set_option (cacheTimeout st))"

section \<open>Specification-level notions for the aggregator\<close>

text \<open>
  The number of items counted under a category, as the specification speaks of it.
\<close>

definition categoryCount :: "item list \<Rightarrow> string \<Rightarrow> nat" where
  "categoryCount xs k = length (filter (\<lambda>item. categoryOf item = k) xs)"

section \<open>Example data\<close>

definition laptop :: item where
  "laptop = \<lparr>item_id = 1, name = Some ''Laptop'', description = Some ''High performance'',
              category = Some ''Electronics'', price = PNumber 100\<rparr>"

definition cable :: item where
  "cable = \<lparr>item_id = 2, name = Some ''Cable'', description = None, category = None,
             price = PNotNumeric\<rparr>"

definition gadget :: item where
  "gadget = \<lparr>item_id = 3, name = Some ''Gadget'', description = None,
              category = Some ''constructor'', price = PNumber 5\<rparr>"

definition staleCache :: items_module where
  "staleCache = \<lparr>itemsCache = Array [laptop], itemsCacheTimestamp = 0, readFileCalls = 1\<rparr>"

definition freshCache :: items_module where
  "freshCache = \<lparr>itemsCache = Array [laptop], itemsCacheTimestamp = 1000, readFileCalls = 1\<rparr>"

definition warmStats :: stats_module where
  "warmStats = snd (getCachedStats initial_stats_module 1000 (Inr (Array [laptop])))"

definition raceState :: stats_module where
  "raceState =
     snd (getCachedStats_resume 1000 (Inr (Array [laptop]))
            (invalidateCache (snd (getCachedStats_start initial_stats_module 1000))))"

section \<open>Properties of rounding\<close>

lemma twoPow_pos: "0 < twoPow k"
  by (simp add: twoPow_def)

lemma twoPow_add: "twoPow (j + k) = twoPow j * twoPow k"
  by (simp add: twoPow_def power_int_add)

lemma twoPow_mono: "j \<le> k \<Longrightarrow> twoPow j \<le> twoPow k"
  by (simp add: twoPow_def power_int_increasing)

lemma twoPow_nat: "twoPow (int n) = 2 ^ n"
  by (simp add: twoPow_def)

lemma bitLength_pos: "0 < n \<Longrightarrow> 0 < bitLength n"
  by (simp add: bitLength.simps [of n])

lemma bitLength_bounds:
  "0 < n \<Longrightarrow> 2 ^ (bitLength n - 1) \<le> n \<and> n < 2 ^ bitLength n"
proof (induction n rule: bitLength.induct)
  case (1 n)
  from "1.prems" have n0: "\<not> n \<le> 0" by simp
  have b: "bitLength n = Suc (bitLength (n div 2))"
    using n0 by (simp add: bitLength.simps [of n])
  show ?case
  proof (cases "n div 2 = 0")
    case True
    with "1.prems" have "n = 1" by linarith
    then show ?thesis by (simp add: bitLength.simps [of 1] bitLength.simps [of 0])
  next
    case False
    with "1.prems" have p: "0 < n div 2" by linarith
    from "1.IH" [OF n0 p] have lo: "2 ^ (bitLength (n div 2) - 1) \<le> n div 2"
      and hi: "n div 2 < 2 ^ bitLength (n div 2)" by simp_all
    from lo have "2 * 2 ^ (bitLength (n div 2) - 1) \<le> n" by linarith
    moreover from bitLength_pos [OF p]
    have "(2::int) * 2 ^ (bitLength (n div 2) - 1) = 2 ^ bitLength (n div 2)"
      by (cases "bitLength (n div 2)") simp_all
    ultimately have l: "2 ^ bitLength (n div 2) \<le> n" by simp
    from hi have "n < 2 * 2 ^ bitLength (n div 2)" by linarith
    with l b show ?thesis by simp
  qed
qed

lemma bitLength_bounds_rat:
  assumes "0 < k"
  shows "twoPow (int (bitLength k) - 1) \<le> of_int k"
    and "of_int k < twoPow (int (bitLength k))"
proof -
  let ?b = "bitLength k"
  from assms have "2 ^ (?b - 1) \<le> k \<and> k < 2 ^ ?b"
    by (rule bitLength_bounds)
  then have "(of_int (2 ^ (?b - 1)) :: rat) \<le> of_int k \<and> (of_int k :: rat) < of_int (2 ^ ?b)"
    by (simp only: of_int_le_iff of_int_less_iff)
  then have r: "(2::rat) ^ (?b - 1) \<le> of_int k" "of_int k < (2::rat) ^ ?b"
    by simp_all
  from assms have "0 < ?b" by (rule bitLength_pos)
  then have "int ?b - 1 = int (?b - 1)" by simp
  then have "twoPow (int ?b - 1) = 2 ^ (?b - 1)" by (simp only: twoPow_nat)
  with r(1) show "twoPow (int ?b - 1) \<le> of_int k" by simp
  from r(2) show "of_int k < twoPow (int ?b)" by (simp only: twoPow_nat)
qed

lemma log2floor_bounds:
  assumes "0 < a"
  shows "twoPow (log2floor a) \<le> a \<and> a < twoPow (log2floor a + 1)"
proof -
  define p where "p = fst (quotient_of a)"
  define q where "q = snd (quotient_of a)"
  have pq: "quotient_of a = (p, q)" by (simp add: p_def q_def)
  have q0: "0 < q" using quotient_of_denom_pos [OF pq] .
  have a: "a = of_int p / of_int q" using quotient_of_div [OF pq] .
  from assms a q0 have p0: "0 < p" by (simp add: zero_less_divide_iff)
  define bp where "bp = int (bitLength p)"
  define bq where "bq = int (bitLength q)"
  note pb = bitLength_bounds_rat [OF p0, folded bp_def]
  note qb = bitLength_bounds_rat [OF q0, folded bq_def]
  define d where "d = bp - bq"
  have qr: "(0::rat) < of_int q" using q0 by simp
  have aq: "a * of_int q = of_int p" using a qr by simp
  have up: "a < twoPow (d + 1)"
  proof -
    have "a * of_int q < twoPow bp" using pb(2) aq by simp
    also have "twoPow bp = twoPow (d + 1) * twoPow (bq - 1)"
      by (simp add: d_def flip: twoPow_add)
    also have "\<dots> \<le> twoPow (d + 1) * of_int q"
      using qb(1) twoPow_pos [of "d + 1"] by (simp add: mult_left_mono)
    finally show ?thesis using qr by simp
  qed
  have lo: "twoPow (d - 1) \<le> a"
  proof -
    have "twoPow (d - 1) * of_int q \<le> twoPow (d - 1) * twoPow bq"
      using qb(2) twoPow_pos [of "d - 1"] by (simp add: mult_left_mono)
    also have "\<dots> = twoPow (bp - 1)"
      by (simp add: d_def flip: twoPow_add)
    also have "\<dots> \<le> a * of_int q" using pb(1) aq by simp
    finally show ?thesis using qr by simp
  qed
  have l: "log2floor a = (if twoPow d \<le> a then d else d - 1)"
    by (simp add: log2floor_def d_def bp_def bq_def p_def q_def Let_def)
  show ?thesis
  proof (cases "twoPow d \<le> a")
    case True
    with l up show ?thesis by simp
  next
    case False
    with l lo show ?thesis by simp
  qed
qed

lemma log2floor_unique:
  assumes "twoPow e \<le> a" and "a < twoPow (e + 1)"
  shows "log2floor a = e"
proof -
  from assms(1) twoPow_pos [of e] have a0: "0 < a" by linarith
  note b = log2floor_bounds [OF a0]
  let ?l = "log2floor a"
  have "\<not> ?l < e"
  proof
    assume "?l < e"
    then have "twoPow (?l + 1) \<le> twoPow e" by (intro twoPow_mono) simp
    with b assms(1) show False by linarith
  qed
  moreover have "\<not> e < ?l"
  proof
    assume "e < ?l"
    then have "twoPow (e + 1) \<le> twoPow ?l" by (intro twoPow_mono) simp
    with b assms(2) show False by linarith
  qed
  ultimately show ?thesis by simp
qed

lemma roundHalfEven_of_int: "roundHalfEven (of_int m) = m"
  by (simp add: roundHalfEven_def)

lemma roundHalfEven_ge_floor: "\<lfloor>x\<rfloor> \<le> roundHalfEven x"
  by (simp add: roundHalfEven_def Let_def)

lemma roundHalfEven_nearest:
  assumes "of_int n - 1 / 2 < x" and "x < of_int n + 1 / 2"
  shows "roundHalfEven x = n"
proof (cases "of_int n \<le> x")
  case True
  with assms(2) have f: "\<lfloor>x\<rfloor> = n" by (intro floor_unique) simp_all
  from assms(2) have "x - of_int n < 1 / 2" by simp
  with f show ?thesis by (simp add: roundHalfEven_def Let_def)
next
  case False
  with assms(1) have f: "\<lfloor>x\<rfloor> = n - 1" by (intro floor_unique) simp_all
  from assms(1) have "1 / 2 < x - of_int (n - 1)" by simp
  with f show ?thesis by (simp add: roundHalfEven_def Let_def)
qed

lemma roundHalfEven_tie:
  assumes "x = of_int n + 1 / 2"
  shows "roundHalfEven x = (if even n then n else n + 1)"
proof -
  have f: "\<lfloor>x\<rfloor> = n" unfolding assms by (intro floor_unique) simp_all
  have "x - of_int n = 1 / 2" by (simp add: assms)
  with f show ?thesis by (simp add: roundHalfEven_def Let_def)
qed

lemma roundMagnitude_unfold:
  assumes "twoPow e \<le> a" and "a < twoPow (e + 1)"
  shows "roundMagnitude a =
           of_int (roundHalfEven (a / twoPow (max e (- 1022) - 52))) *
             twoPow (max e (- 1022) - 52)"
  by (simp add: roundMagnitude_def Let_def log2floor_unique [OF assms])

lemma roundMagnitude_exact:
  assumes "twoPow e \<le> a" and "a < twoPow (e + 1)" and "- 1022 \<le> e"
      and "a = of_int m * twoPow (e - 52)"
  shows "roundMagnitude a = a"
proof -
  from assms(3) have m: "max e (- 1022) = e" by simp
  have u: "twoPow (e - 52) \<noteq> 0" using twoPow_pos [of "e - 52"] by simp
  have d: "a / twoPow (e - 52) = of_int m" using u by (simp add: assms(4))
  have "roundMagnitude a = of_int (roundHalfEven (a / twoPow (e - 52))) * twoPow (e - 52)"
    using roundMagnitude_unfold [OF assms(1,2)] by (simp only: m)
  also have "\<dots> = of_int m * twoPow (e - 52)"
    by (simp only: d roundHalfEven_of_int)
  finally show ?thesis by (simp only: assms(4))
qed

lemma roundMagnitude_of_int_small:
  assumes "0 < m" and "m < 2 ^ 53"
  shows "roundMagnitude (of_int m) = of_int m"
proof -
  define a :: rat where "a = of_int m"
  from assms(1) have a1: "1 \<le> a" by (simp add: a_def)
  then have a0: "0 < a" by simp
  have a53: "a < twoPow 53"
  proof -
    from assms(2) have "(of_int m :: rat) < of_int (2 ^ 53)" by (simp only: of_int_less_iff)
    then show ?thesis by (simp add: a_def twoPow_def)
  qed
  note b = log2floor_bounds [OF a0]
  define e where "e = log2floor a"
  have e0: "0 \<le> e"
  proof (rule ccontr)
    assume "\<not> 0 \<le> e"
    then have "twoPow (e + 1) \<le> twoPow 0" by (intro twoPow_mono) simp
    with b a1 show False by (simp add: e_def twoPow_def)
  qed
  have e52: "e \<le> 52"
  proof (rule ccontr)
    assume "\<not> e \<le> 52"
    then have "twoPow 53 \<le> twoPow e" by (intro twoPow_mono) simp
    with b a53 show False by (simp add: e_def)
  qed
  define k where "k = nat (52 - e)"
  have "twoPow (int k) * twoPow (e - 52) = twoPow 0"
    using e52 by (simp add: k_def flip: twoPow_add)
  then have ku: "2 ^ k * twoPow (e - 52) = 1" by (simp add: twoPow_nat) (simp add: twoPow_def)
  have "a = of_int (m * 2 ^ k) * twoPow (e - 52)"
  proof -
    have "of_int (m * 2 ^ k) * twoPow (e - 52) = a * (2 ^ k * twoPow (e - 52))"
      by (simp add: a_def)
    then show ?thesis by (simp add: ku)
  qed
  moreover have "- 1022 \<le> e" using e0 by simp
  ultimately have "roundMagnitude a = a"
    using b unfolding e_def [symmetric] by (intro roundMagnitude_exact [of e a "m * 2 ^ k"]) simp_all
  then show ?thesis by (simp add: a_def)
qed

lemma roundMagnitude_large:
  assumes "twoPow 1024 \<le> a"
  shows "twoPow 1024 \<le> roundMagnitude a"
proof -
  from assms twoPow_pos [of 1024] have a0: "0 < a" by linarith
  note b = log2floor_bounds [OF a0]
  define e where "e = log2floor a"
  have e1024: "1024 \<le> e"
  proof (rule ccontr)
    assume "\<not> 1024 \<le> e"
    then have "twoPow (e + 1) \<le> twoPow 1024" by (intro twoPow_mono) simp
    with b assms show False by (simp add: e_def)
  qed
  define u where "u = twoPow (e - 52)"
  have u0: "0 < u" by (simp add: u_def twoPow_pos)
  have "twoPow 52 * u = twoPow e" by (simp add: u_def flip: twoPow_add)
  then have ue: "2 ^ 52 * u = twoPow e" by (simp add: twoPow_def)
  with b have "2 ^ 52 * u \<le> a" by (simp add: e_def)
  with u0 have "2 ^ 52 \<le> a / u" by (simp add: pos_le_divide_eq)
  then have "(2::int) ^ 52 \<le> \<lfloor>a / u\<rfloor>" by (simp add: le_floor_iff)
  with roundHalfEven_ge_floor [of "a / u"] have "(2::int) ^ 52 \<le> roundHalfEven (a / u)"
    by linarith
  then have "(of_int (2 ^ 52) :: rat) \<le> of_int (roundHalfEven (a / u))"
    by (simp only: of_int_le_iff)
  then have "2 ^ 52 * u \<le> of_int (roundHalfEven (a / u)) * u"
    using u0 by (simp add: mult_right_mono)
  with ue have "twoPow e \<le> of_int (roundHalfEven (a / u)) * u" by simp
  moreover from e1024 have "twoPow 1024 \<le> twoPow e" by (rule twoPow_mono)
  moreover have "max e (- 1022) = e" using e1024 by simp
  ultimately show ?thesis
    by (simp add: roundMagnitude_def Let_def flip: e_def) (simp add: u_def)
qed

lemma fl_of_int_small:
  assumes "\<bar>n\<bar> < 2 ^ 53"
  shows "fl (of_int n) = Some (of_int n)"
proof (cases "n = 0")
  case True
  then show ?thesis by (simp add: fl_def)
next
  case False
  then have p: "0 < \<bar>n\<bar>" by simp
  have r: "roundMagnitude \<bar>of_int n\<bar> = of_int \<bar>n\<bar>"
    using roundMagnitude_of_int_small [OF p assms] by simp
  have "(of_int \<bar>n\<bar> :: rat) < of_int (2 ^ 53)" using assms by (simp only: of_int_less_iff)
  also have "\<dots> = twoPow 53" by (simp add: twoPow_def)
  also have "\<dots> \<le> twoPow 1024" by (intro twoPow_mono) simp
  finally have lt: "\<not> twoPow 1024 \<le> (of_int \<bar>n\<bar> :: rat)" by simp
  show ?thesis
    using False lt by (simp add: fl_def r Let_def)
qed

lemma fl_overflow:
  assumes "twoPow 1024 \<le> \<bar>x\<bar>"
  shows "fl x = None"
proof -
  from assms twoPow_pos [of 1024] have "x \<noteq> 0" by auto
  with roundMagnitude_large [OF assms] show ?thesis by (simp add: fl_def Let_def)
qed

text \<open>An integer below \<open>2^53\<close> in magnitude is a double; \<open>parseInt\<close> returns it as it is.\<close>

lemma integerToNumber_small:
  assumes "0 \<le> n" and "n < 2 ^ 53"
  shows "integerToNumber neg n = Num ((if neg then - 1 else 1) * n)"
proof -
  from assms have "\<bar>n\<bar> < 2 ^ 53" by simp
  then have "fl (of_int n) = Some (of_int n)" by (rule fl_of_int_small)
  then show ?thesis by (simp add: integerToNumber_def)
qed

lemma integerToNumber_overflow:
  assumes "2 ^ 1024 \<le> n"
  shows "integerToNumber neg n = (if neg then NegInfinity else Infinity)"
proof -
  from assms have "(of_int (2 ^ 1024) :: rat) \<le> of_int n" by (simp only: of_int_le_iff)
  then have "twoPow 1024 \<le> \<bar>of_int n :: rat\<bar>" by (simp add: twoPow_def)
  then have "fl (of_int n) = None" by (rule fl_overflow)
  then show ?thesis by (simp add: integerToNumber_def)
qed

section \<open>Properties of the string built-ins\<close>

lemma str_includes_sublist: "str_includes s t \<longleftrightarrow> sublist t s"
  by (induction s) (simp_all add: sublist_Cons_right)

lemma isWhiteSpace_lowerChar: "isWhiteSpace (lowerChar c) = isWhiteSpace c"
proof (cases "isUpper c")
  case False
  then show ?thesis by (simp add: lowerChar_def)
next
  case True
  have b: "(of_char c :: nat) < 256" by simp
  from True have "\<not> isWhiteSpace c"
    by (auto simp: isUpper_def isWhiteSpace_def Let_def)
  moreover from True b have "\<not> isWhiteSpace (lowerChar c)"
    by (auto simp: isUpper_def isWhiteSpace_def lowerChar_def Let_def)
  ultimately show ?thesis by simp
qed

lemma dropWhile_toLowerCase:
  "dropWhile isWhiteSpace (toLowerCase s) = toLowerCase (dropWhile isWhiteSpace s)"
  by (induction s) (simp_all add: toLowerCase_def isWhiteSpace_lowerChar)

lemma trim_toLowerCase: "trim (toLowerCase s) = toLowerCase (trim s)"
proof -
  have r: "rev (toLowerCase u) = toLowerCase (rev u)" for u
    by (simp add: toLowerCase_def rev_map)
  show ?thesis
    unfolding trim_def by (simp only: dropWhile_toLowerCase r)
qed

lemma trim_empty_iff: "trim s = [] \<longleftrightarrow> (\<forall>c \<in> set s. isWhiteSpace c)"
proof -
  have "trim s = [] \<longleftrightarrow> dropWhile isWhiteSpace (rev (dropWhile isWhiteSpace s)) = []"
    by (simp add: trim_def)
  also have "\<dots> \<longleftrightarrow> (\<forall>c \<in> set (dropWhile isWhiteSpace s). isWhiteSpace c)"
    by simp
  also have "\<dots> \<longleftrightarrow> (\<forall>c \<in> set s. isWhiteSpace c)"
  proof
    assume a: "\<forall>c \<in> set (dropWhile isWhiteSpace s). isWhiteSpace c"
    have "dropWhile isWhiteSpace s = []"
    proof (rule ccontr)
      assume "dropWhile isWhiteSpace s \<noteq> []"
      then have "\<not> isWhiteSpace (hd (dropWhile isWhiteSpace s))"
        by (rule hd_dropWhile)
      moreover from \<open>dropWhile isWhiteSpace s \<noteq> []\<close>
      have "hd (dropWhile isWhiteSpace s) \<in> set (dropWhile isWhiteSpace s)"
        by simp
      ultimately show False using a by blast
    qed
    then show "\<forall>c \<in> set s. isWhiteSpace c"
      by simp
  next
    assume "\<forall>c \<in> set s. isWhiteSpace c"
    then show "\<forall>c \<in> set (dropWhile isWhiteSpace s). isWhiteSpace c"
      using set_dropWhileD by fastforce
  qed
  finally show ?thesis .
qed

section \<open>Search\<close>

text \<open>
  C1. For a query that is not empty and not all whitespace, \<open>filterItems\<close> returns exactly
  the items whose lower-cased name, description or category contains the trimmed,
  lower-cased query as a substring, in their original order (the result is the input
  filtered by the specification's match predicate); an item without a description or
  category is matched as if the field were the empty string.
\<close>

theorem filterItems_matches:
  assumes "query \<noteq> []" and "\<exists>c \<in> set query. \<not> isWhiteSpace c"
  shows "filterItems xs query = filter (spec_matches (spec_normalize query)) xs"
proof -
  from assms(2) have "trim query \<noteq> []"
    by (simp add: trim_empty_iff)
  with assms(1) show ?thesis
    by (simp add: filterItems_def spec_matches_def [abs_def] spec_normalize_def
        str_includes_sublist trim_toLowerCase Let_def)
qed

theorem filterItems_matches_witness:
  "'' LAP '' \<noteq> [] \<and> (\<exists>c \<in> set '' LAP ''. \<not> isWhiteSpace c) \<and>
   filterItems [laptop, cable] '' LAP '' =
     filter (spec_matches (spec_normalize '' LAP '')) [laptop, cable] \<and>
   filterItems [laptop, cable] '' LAP '' = [laptop]"
proof -
  have h: "\<exists>c \<in> set '' LAP ''. \<not> isWhiteSpace c"
    by (simp add: isWhiteSpace_def)
  have e: "filterItems [laptop, cable] '' LAP '' = [laptop]"
    by code_simp
  from filterItems_matches [of "'' LAP ''" "[laptop, cable]", OF _ h] h e
  show ?thesis by simp
qed

text \<open>
  C6. For a query that is empty or consists of white space only, \<open>filterItems\<close> returns
  its input unchanged.
\<close>

theorem filterItems_blank_identity:
  assumes "\<forall>c \<in> set query. isWhiteSpace c"
  shows "filterItems xs query = xs"
  using assms by (simp add: filterItems_def trim_empty_iff)

theorem filterItems_blank_identity_witness:
  "list_all isWhiteSpace ''  '' \<and> filterItems [laptop, cable] ''  '' = [laptop, cable] \<and>
   filterItems [laptop, cable] [] = [laptop, cable]"
  using filterItems_blank_identity [of "''  ''" "[laptop, cable]"]
    filterItems_blank_identity [of "[]" "[laptop, cable]"]
  by (simp add: isWhiteSpace_def)

section \<open>Pagination\<close>

lemma ceilDiv_ceiling:
  assumes "l \<noteq> 0"
  shows "ceilDiv len (Num l) = JNum \<lceil>real len / real_of_int l\<rceil>"
proof -
  have "\<lceil>real len / real_of_int l\<rceil> = \<lceil>real_of_int (int len) / real_of_int l\<rceil>"
    by simp
  also have "\<dots> = - (- int len div l)"
    by (rule ceiling_divide_eq_div)
  finally show ?thesis
    using assms by (simp add: ceilDiv_def)
qed

lemma slice_Num:
  "0 \<le> a \<Longrightarrow> 0 \<le> b \<Longrightarrow>
   slice xs (Num a) (Num b) =
     take (nat (min b (int (length xs)) - min a (int (length xs))))
       (drop (nat (min a (int (length xs)))) xs)"
  by (simp add: slice_def relativeIndex_def Let_def)

text \<open>For a positive page and page size the slice is the usual window.\<close>

lemma paginate_items_Num:
  assumes "0 < p" "0 < l"
  shows "items (paginate xs (Num p) (Num l)) = take (nat l) (drop (nat ((p - 1) * l)) xs)"
proof -
  let ?n = "int (length xs)"
  let ?s = "(p - 1) * l"
  from assms have s0: "0 \<le> ?s" by simp
  from assms s0 have e0: "0 \<le> ?s + l" by linarith
  have "items (paginate xs (Num p) (Num l)) = slice xs (Num ?s) (Num (?s + l))"
    by (simp add: paginate_def num_sub_def Let_def)
  also have "\<dots> = take (nat (min (?s + l) ?n - min ?s ?n)) (drop (nat (min ?s ?n)) xs)"
    using s0 e0 by (rule slice_Num)
  also have "\<dots> = take (nat l) (drop (nat ?s) xs)"
  proof (cases "?s \<le> ?n")
    case True
    then have m: "min ?s ?n = ?s" by simp
    show ?thesis
    proof (cases "?s + l \<le> ?n")
      case True
      then show ?thesis using m by simp
    next
      case False
      then have "length (drop (nat ?s) xs) \<le> nat (?n - ?s)" by simp
      moreover from False assms have "nat (?n - ?s) \<le> nat l" by linarith
      ultimately show ?thesis using m False by simp
    qed
  next
    case False
    with assms show ?thesis by simp
  qed
  finally show ?thesis .
qed

text \<open>
  C5. For a positive page and page size, a page beyond the last one (a page number above
  the ceiling of the item count over the page size) has no items, and the metadata still
  reports the item count and that number of pages. With 45 items and a page size of 20
  there are 3 pages, page 3 holds 5 items, and page 4 holds none while 3 pages are still
  reported.
\<close>

theorem paginate_beyond_last_page:
  "(0 < p \<and> 0 < l \<and> \<lceil>real (length xs) / real_of_int l\<rceil> < p \<longrightarrow>
      items (paginate xs (Num p) (Num l)) = [] \<and>
      pagination (paginate xs (Num p) (Num l)) =
        \<lparr>currentPage = JNum p, totalPages = JNum \<lceil>real (length xs) / real_of_int l\<rceil>,
         totalItems = length xs, itemsPerPage = JNum l\<rparr>) \<and>
   (length ys = 45 \<longrightarrow>
      totalPages (pagination (paginate ys (Num 3) (Num 20))) = JNum 3 \<and>
      length (items (paginate ys (Num 3) (Num 20))) = 5 \<and>
      items (paginate ys (Num 4) (Num 20)) = [] \<and>
      totalPages (pagination (paginate ys (Num 4) (Num 20))) = JNum 3)"
proof (intro conjI impI)
  assume a: "0 < p \<and> 0 < l \<and> \<lceil>real (length xs) / real_of_int l\<rceil> < p"
  then have p: "0 < p" and l: "0 < l"
    and c: "\<lceil>real (length xs) / real_of_int l\<rceil> \<le> p - 1"
    by simp_all
  from c have "real (length xs) / real_of_int l \<le> real_of_int (p - 1)"
    by (simp only: ceiling_le_iff)
  with l have "real (length xs) \<le> real_of_int (p - 1) * real_of_int l"
    by (simp add: pos_divide_le_eq)
  then have "real_of_int (int (length xs)) \<le> real_of_int ((p - 1) * l)" by simp
  then have "int (length xs) \<le> (p - 1) * l" by (simp only: of_int_le_iff)
  then have "length xs \<le> nat ((p - 1) * l)" by linarith
  then show "items (paginate xs (Num p) (Num l)) = []"
    using p l by (simp add: paginate_items_Num)
  from l have "l \<noteq> 0" by simp
  then show "pagination (paginate xs (Num p) (Num l)) =
        \<lparr>currentPage = JNum p, totalPages = JNum \<lceil>real (length xs) / real_of_int l\<rceil>,
         totalItems = length xs, itemsPerPage = JNum l\<rparr>"
    by (simp add: paginate_def Let_def toJSON_def ceilDiv_ceiling)
next
  assume n: "length ys = 45"
  show "totalPages (pagination (paginate ys (Num 3) (Num 20))) = JNum 3"
    using n by (simp add: paginate_def Let_def ceilDiv_def)
  show "totalPages (pagination (paginate ys (Num 4) (Num 20))) = JNum 3"
    using n by (simp add: paginate_def Let_def ceilDiv_def)
  show "length (items (paginate ys (Num 3) (Num 20))) = 5"
    using n by (simp add: paginate_items_Num)
  show "items (paginate ys (Num 4) (Num 20)) = []"
    using n by (simp add: paginate_items_Num)
qed

theorem paginate_beyond_last_page_witness:
  "(0::int) < 4 \<and> (0::int) < 20 \<and>
   \<lceil>real (length (replicate 45 cable)) / real_of_int 20\<rceil> < 4 \<and>
   length (replicate 45 cable) = 45 \<and>
   items (paginate (replicate 45 cable) (Num 4) (Num 20)) = [] \<and>
   pagination (paginate (replicate 45 cable) (Num 4) (Num 20)) =
     \<lparr>currentPage = JNum 4, totalPages = JNum 3, totalItems = 45, itemsPerPage = JNum 20\<rparr> \<and>
   length (items (paginate (replicate 45 cable) (Num 3) (Num 20))) = 5"
proof -
  have c: "\<lceil>real (length (replicate 45 cable)) / real_of_int 20\<rceil> = 3"
    by (simp add: ceiling_eq_iff)
  from paginate_beyond_last_page [of 4 20 "replicate 45 cable" "replicate 45 cable"] c
  show ?thesis by simp
qed

section \<open>What parseInt returns\<close>

lemma parseInt_0: "parseInt ''0'' = Num 0"
  by (simp add: parseInt_def isWhiteSpace_def isDigit_def digitsValue_def integerToNumber_small)

lemma parseInt_minus_5: "parseInt ''-5'' = Num (- 5)"
  by (simp add: parseInt_def isWhiteSpace_def isDigit_def digitsValue_def integerToNumber_small)

lemma parseInt_4: "parseInt ''4'' = Num 4"
  by (simp add: parseInt_def isWhiteSpace_def isDigit_def digitsValue_def integerToNumber_small)

lemma parseInt_20: "parseInt ''20'' = Num 20"
  by (simp add: parseInt_def isWhiteSpace_def isDigit_def digitsValue_def integerToNumber_small)

lemma parseInt_abc: "parseInt ''abc'' = NaN"
  by (simp add: parseInt_def isWhiteSpace_def isDigit_def)

text \<open>
  Above \<open>2^53\<close> not every integer is a double: \<open>9007199254740993\<close>, half way between two
  doubles, is read as the even one, \<open>9007199254740992\<close>.
\<close>

lemma fl_2_53_plus_1: "fl 9007199254740993 = Some 9007199254740992"
proof -
  have lo: "twoPow 53 \<le> 9007199254740993" and hi: "9007199254740993 < twoPow (53 + 1)"
    by (simp_all add: twoPow_def)
  have t: "roundHalfEven (9007199254740993 / 2) = 4503599627370496"
    using roundHalfEven_tie [of "9007199254740993 / 2" 4503599627370496] by simp
  have "roundMagnitude 9007199254740993 = 9007199254740992"
    by (simp add: roundMagnitude_unfold [OF lo hi]) (simp add: twoPow_def t)
  moreover have "\<not> twoPow 1024 \<le> 9007199254740992"
    by (simp add: twoPow_def)
  ultimately show ?thesis by (simp add: fl_def)
qed

lemma parseInt_2_53_plus_1: "parseInt ''9007199254740993'' = Num 9007199254740992"
proof -
  have "parseInt ''9007199254740993'' = integerToNumber False 9007199254740993"
    by (simp add: parseInt_def isWhiteSpace_def isDigit_def digitsValue_def)
  also have "\<dots> = Num 9007199254740992"
    using fl_2_53_plus_1 by (simp add: integerToNumber_def)
  finally show ?thesis .
qed

text \<open>A run of 310 digits is beyond the doubles: \<open>parseInt\<close> returns \<open>Infinity\<close>.\<close>

lemma digitsValue_nines:
  "foldl (\<lambda>acc c. 10 * acc + (of_char c - 48)) a (replicate n CHR ''9'') = (a + 1) * 10 ^ n - (1::int)"
proof (induction n arbitrary: a)
  case 0
  show ?case by simp
next
  case (Suc n)
  have "foldl (\<lambda>acc c. 10 * acc + (of_char c - 48)) a (replicate (Suc n) CHR ''9'') =
        foldl (\<lambda>acc c. 10 * acc + (of_char c - 48)) (10 * a + 9) (replicate n CHR ''9'')"
    by simp
  also have "\<dots> = (10 * a + 9 + 1) * 10 ^ n - 1" by (rule Suc.IH)
  also have "(10 * a + 9 + 1) * 10 ^ n = (a + 1) * 10 ^ Suc n" by (simp add: algebra_simps)
  finally show ?case .
qed

lemma parseInt_310_nines: "parseInt (replicate 310 CHR ''9'') = Infinity"
proof -
  have d: "digitsValue (replicate 310 CHR ''9'') = 10 ^ 310 - 1"
    using digitsValue_nines [of 0 310] by (simp add: digitsValue_def)
  have "(2::int) ^ 1024 \<le> 10 ^ 310 - 1" by simp
  then have "integerToNumber False (10 ^ 310 - 1) = Infinity"
    by (simp only: integerToNumber_overflow if_False)
  then show ?thesis
    by (simp add: parseInt_def isWhiteSpace_def isDigit_def d Let_def)
qed

section \<open>The items route\<close>

text \<open>Page 4 of 45 items, 20 to a page, through the query strings of the route.\<close>

lemma items_body_page_4_of_45:
  "items_body (Array (replicate 45 cable))
       \<lparr>page = Some (QString ''4''), limit = Some (QString ''20''), q = None\<rparr> =
     Inr (ArrayBody
       \<lparr>items = [],
        pagination = \<lparr>currentPage = JNum 4, totalPages = JNum 3, totalItems = 45,
                      itemsPerPage = JNum 20\<rparr>\<rparr>)"
  by (simp add: items_body_def queryFilter_def pageNumOf_def limitNumOf_def parseIntQ_def
      parseInt_4 parseInt_20 paginate_def num_sub_def slice_def relativeIndex_def toJSON_def
      ceilDiv_def Let_def)

text \<open>
  What the types of the earlier sections leave out is an error here: a \<open>q\<close> that is
  not a string, a data file that holds neither an array nor a string, a non-blank \<open>q\<close>
  on a file that holds a string, and a \<open>page\<close> that cannot be converted to a string.
\<close>

lemma items_body_q_array:
  "items_body content \<lparr>page = pv, limit = lv, q = Some (QArray vs)\<rparr> = Inl TypeError"
  by (simp add: items_body_def queryFilter_def)

lemma items_body_q_object:
  "items_body content \<lparr>page = pv, limit = lv, q = Some (QObject kvs)\<rparr> = Inl TypeError"
  by (simp add: items_body_def queryFilter_def)

lemma firstError_in:
  "firstError rs = Some e \<Longrightarrow> Inl e \<in> set rs"
  by (induction rs rule: firstError.induct) simp_all

lemma toStringQ_error: "toStringQ v = Inl e \<Longrightarrow> e = TypeError"
proof (induction v arbitrary: e rule: toStringQ.induct)
  case (1 s)
  then show ?case by simp
next
  case (2 vs)
  from "2.prems" have "firstError (map toStringQ vs) = Some e"
    by (simp split: option.splits)
  then have "Inl e \<in> set (map toStringQ vs)" by (rule firstError_in)
  then obtain v where "v \<in> set vs" and "toStringQ v = Inl e" by auto
  then show ?case by (rule "2.IH")
next
  case (3 kvs)
  then show ?case by (simp split: if_splits)
qed

lemma parseIntQ_error: "parseIntQ v = Inl e \<Longrightarrow> e = TypeError"
  by (auto simp: parseIntQ_def split: sum.splits dest: toStringQ_error)

lemma items_body_not_a_sequence:
  assumes "content = Null \<or> content = Undefined \<or> content = Boolean b \<or>
           content = Number r \<or> content = Object kvs"
  shows "items_body content rq = Inl TypeError"
proof -
  have f: "queryFilter content (q rq) = Inl TypeError \<or>
           queryFilter content (q rq) = Inr content"
    using assms by (auto simp: queryFilter_def split: option.splits qvalue.splits)
  have p: "pageNumOf rq = Inl e \<Longrightarrow> e = TypeError" for e
    by (auto simp: pageNumOf_def split: option.splits dest: parseIntQ_error)
  have l: "limitNumOf rq = Inl e \<Longrightarrow> e = TypeError" for e
    by (auto simp: limitNumOf_def split: option.splits dest: parseIntQ_error)
  from f assms show ?thesis
    by (auto simp: items_body_def split: sum.splits dest: p l)
qed

lemma items_body_page_toString:
  "items_body content
       \<lparr>page = Some (QObject [(''toString'', QString ''1'')]), limit = None, q = None\<rparr> =
     Inl TypeError"
  by (simp add: items_body_def queryFilter_def pageNumOf_def parseIntQ_def)

text \<open>A repeated \<open>page\<close> is an array: \<open>parseInt\<close> reads the first element.\<close>

lemma pageNumOf_repeated:
  "pageNumOf \<lparr>page = Some (QArray [QString ''4'', QString ''20'']), limit = lv, q = qv\<rparr> =
     Inr (Num 4)"
  by (simp add: pageNumOf_def parseIntQ_def parseInt_def isWhiteSpace_def isDigit_def
      digitsValue_def integerToNumber_small)

text \<open>
  A limit of 310 digits is \<open>Infinity\<close>: the page is empty, \<open>itemsPerPage\<close> is
  \<open>null\<close> and \<open>totalPages\<close> is 0.
\<close>

lemma items_body_limit_310_nines:
  "items_body (Array [laptop, cable])
       \<lparr>page = None, limit = Some (QString (replicate 310 CHR ''9'')), q = None\<rparr> =
     Inr (ArrayBody
       \<lparr>items = [],
        pagination = \<lparr>currentPage = JNum 1, totalPages = JNum 0, totalItems = 2,
                      itemsPerPage = JNull\<rparr>\<rparr>)"
  by (simp add: items_body_def queryFilter_def pageNumOf_def limitNumOf_def parseIntQ_def
      parseInt_310_nines paginate_def num_sub_def slice_def relativeIndex_def toJSON_def
      ceilDiv_def Let_def)

section \<open>Pagination parameters that are not positive integers\<close>

text \<open>
  C2 as stated does not hold. With \<open>page=0\<close> and \<open>limit=-5\<close> the request is answered,
  not rejected, and the metadata reports page 0 and a page size of -5 instead of the
  defaults 1 and 10.
\<close>

theorem invalid_page_counterexample:
  "fst (items_route freshCache 2000 ReadRejects
          \<lparr>page = Some (QString ''0''), limit = Some (QString ''-5''), q = None\<rparr>) =
     Inr (ArrayBody
       \<lparr>items = [],
        pagination = \<lparr>currentPage = JNum 0, totalPages = JNum 0, totalItems = 1,
                      itemsPerPage = JNum (- 5)\<rparr>\<rparr>)"
  by (simp add: items_route_def getItems_def getItems_start_def itemsCacheValid_def truthy_def
      freshCache_def ITEMS_CACHE_TTL_def items_body_def queryFilter_def pageNumOf_def
      limitNumOf_def parseIntQ_def parseInt_0 parseInt_minus_5 paginate_def num_sub_def
      slice_def relativeIndex_def toJSON_def ceilDiv_def Let_def)

text \<open>
  C2 as amended. Provided the items load as an array of item records, \<open>q\<close> is absent
  or a string, and \<open>page\<close> and \<open>limit\<close> can be converted to strings, the request is
  answered, whatever the page and limit are. A parameter defaults (page 1, limit 10)
  only when it is absent; a parameter that is present is used as \<open>parseInt\<close> returns
  it, and the metadata is computed from that value: \<open>currentPage\<close> and
  \<open>itemsPerPage\<close> are the parsed numbers and \<open>totalPages\<close> is the item count divided
  by the parsed limit, rounded up, each written as \<open>null\<close> when it is \<open>NaN\<close> or
  infinite.
\<close>

theorem items_route_parameters:
  assumes "fst (getItems st now outcome) = Inr (Array xs)"
      and "q rq = None \<or> (\<exists>s. q rq = Some (QString s))"
      and "pageNumOf rq = Inr pageNum"
      and "limitNumOf rq = Inr limitNum"
  shows "\<exists>body. fst (items_route st now outcome rq) = Inr (ArrayBody body) \<and>
           currentPage (pagination body) = toJSON pageNum \<and>
           itemsPerPage (pagination body) = toJSON limitNum \<and>
           totalPages (pagination body) =
             ceilDiv (pagination_meta.totalItems (pagination body)) limitNum \<and>
           (page rq = None \<longrightarrow> pageNum = Num 1) \<and>
           (limit rq = None \<longrightarrow> limitNum = Num 10) \<and>
           (\<forall>s. page rq = Some (QString s) \<longrightarrow> pageNum = parseInt s) \<and>
           (\<forall>s. limit rq = Some (QString s) \<longrightarrow> limitNum = parseInt s)"
proof -
  obtain st' where g: "getItems st now outcome = (Inr (Array xs), st')"
    using assms(1) by (cases "getItems st now outcome") simp
  have "\<exists>ys. queryFilter (Array xs) (q rq) = Inr (Array ys)"
    using assms(2) by (auto simp: queryFilter_def)
  then obtain ys where f: "queryFilter (Array xs) (q rq) = Inr (Array ys)" ..
  have r: "fst (items_route st now outcome rq) = Inr (ArrayBody (paginate ys pageNum limitNum))"
    by (simp add: items_route_def g items_body_def f assms(3,4))
  have p: "page rq = None \<longrightarrow> pageNum = Num 1"
    and l: "limit rq = None \<longrightarrow> limitNum = Num 10"
    and ps: "\<forall>s. page rq = Some (QString s) \<longrightarrow> pageNum = parseInt s"
    and ls: "\<forall>s. limit rq = Some (QString s) \<longrightarrow> limitNum = parseInt s"
    using assms(3,4) by (auto simp: pageNumOf_def limitNumOf_def parseIntQ_def)
  show ?thesis
    using p l ps ls by (simp add: r paginate_def Let_def)
qed

theorem items_route_parameters_witness:
  "fst (getItems freshCache 2000 ReadRejects) = Inr (Array [laptop]) \<and>
   pageNumOf \<lparr>page = Some (QString ''0''), limit = Some (QString ''-5''), q = None\<rparr> =
     Inr (Num 0) \<and>
   limitNumOf \<lparr>page = Some (QString ''0''), limit = Some (QString ''-5''), q = None\<rparr> =
     Inr (Num (- 5)) \<and>
   (\<exists>body. fst (items_route freshCache 2000 ReadRejects
                  \<lparr>page = Some (QString ''0''), limit = Some (QString ''-5''), q = None\<rparr>) =
              Inr (ArrayBody body) \<and>
      currentPage (pagination body) = JNum 0 \<and>
      itemsPerPage (pagination body) = JNum (- 5) \<and>
      totalPages (pagination body) =
        ceilDiv (pagination_meta.totalItems (pagination body)) (Num (- 5)))"
proof -
  let ?rq = "\<lparr>page = Some (QString ''0''), limit = Some (QString ''-5''), q = None\<rparr>"
  have g: "fst (getItems freshCache 2000 ReadRejects) = Inr (Array [laptop])"
    by (simp add: getItems_def getItems_start_def itemsCacheValid_def truthy_def
        freshCache_def ITEMS_CACHE_TTL_def)
  have qn: "q ?rq = None \<or> (\<exists>s. q ?rq = Some (QString s))" by simp
  have pn: "pageNumOf ?rq = Inr (Num 0)"
    by (simp add: pageNumOf_def parseIntQ_def parseInt_0)
  have ln: "limitNumOf ?rq = Inr (Num (- 5))"
    by (simp add: limitNumOf_def parseIntQ_def parseInt_minus_5)
  from items_route_parameters [OF g qn pn ln]
  obtain body where
    "fst (items_route freshCache 2000 ReadRejects ?rq) = Inr (ArrayBody body)"
    "currentPage (pagination body) = JNum 0"
    "itemsPerPage (pagination body) = JNum (- 5)"
    "totalPages (pagination body) =
       ceilDiv (pagination_meta.totalItems (pagination body)) (Num (- 5))"
    by (auto simp: toJSON_def)
  with g pn ln show ?thesis by blast
qed

section \<open>The item cache\<close>

text \<open>
  C3 as stated does not hold. The cache holds a snapshot that has gone stale and the
  read is rejected: \<open>getItems\<close> fails with \<open>Failed to read items data\<close> instead of
  returning the snapshot.
\<close>

theorem stale_reload_failure_counterexample:
  "itemsCache staleCache = Array [laptop] \<and> \<not> itemsCacheValid staleCache 30000 \<and>
   fst (getItems staleCache 30000 ReadRejects) = Inl FailedToReadItemsData"
  by (simp add: staleCache_def itemsCacheValid_def ITEMS_CACHE_TTL_def getItems_def
      getItems_start_def getItems_resume_def)

text \<open>
  C3 as amended. If the entry is stale, a previous snapshot exists and the reload fails
  (the read is rejected or the content does not parse), then \<open>getItems\<close> fails the
  request with \<open>Failed to read items data\<close>; the previous snapshot and its timestamp
  stay in the cache unchanged.
\<close>

theorem getItems_failed_refresh:
  assumes "itemsCache st = Array old"
      and "\<not> itemsCacheValid st now"
      and "outcome = ReadRejects \<or> outcome = ParseThrows"
  shows "fst (getItems st now outcome) = Inl FailedToReadItemsData \<and>
         itemsCache (snd (getItems st now outcome)) = Array old \<and>
         itemsCacheTimestamp (snd (getItems st now outcome)) = itemsCacheTimestamp st"
  using assms by (auto simp: getItems_def getItems_start_def getItems_resume_def)

theorem getItems_failed_refresh_witness:
  "itemsCache staleCache = Array [laptop] \<and> \<not> itemsCacheValid staleCache 30000 \<and>
   fst (getItems staleCache 30000 ParseThrows) = Inl FailedToReadItemsData \<and>
   itemsCache (snd (getItems staleCache 30000 ParseThrows)) = Array [laptop] \<and>
   itemsCacheTimestamp (snd (getItems staleCache 30000 ParseThrows)) = 0"
proof -
  have a: "itemsCache staleCache = Array [laptop]"
    by (simp add: staleCache_def)
  have b: "\<not> itemsCacheValid staleCache 30000"
    by (simp add: staleCache_def itemsCacheValid_def ITEMS_CACHE_TTL_def)
  have c: "itemsCacheTimestamp staleCache = 0"
    by (simp add: staleCache_def)
  from getItems_failed_refresh [OF a b, of ParseThrows] a b c show ?thesis by simp
qed



text \<open>
  A file that holds \<open>null\<close>, \<open>false\<close>, zero or the empty string gives an entry that
  never counts as valid: every call reads the file again.
\<close>

lemma falsy_content_never_valid:
  assumes "\<not> truthy v"
  shows "\<not> itemsCacheValid (snd (getItems_resume t (FileContent v) st)) now"
  using assms by (simp add: getItems_resume_def itemsCacheValid_def)

section \<open>Calls that overlap\<close>

text \<open>
  C9 as stated does not hold. Two calls of \<open>getItems\<close> that start while the entry is
  stale, the second before the read of the first has completed, each issue a read: the
  file is read twice, not once.
\<close>

theorem concurrent_get_counterexample:
  "\<not> itemsCacheValid staleCache 30000 \<and>
   fst (getItems_start staleCache 30000) = Awaiting 30000 \<and>
   fst (getItems_start (snd (getItems_start staleCache 30000)) 30000) = Awaiting 30000 \<and>
   readFileCalls (snd (getItems_start (snd (getItems_start staleCache 30000)) 30000)) =
     readFileCalls staleCache + 2"
  by (simp add: staleCache_def itemsCacheValid_def ITEMS_CACHE_TTL_def getItems_start_def)

text \<open>
  C9 as amended. Neither cache keeps track of a load in flight. Every call that starts
  while the entry is empty or stale starts a load of its own: two calls of \<open>getItems\<close>
  that overlap while the entry is stale read the file twice, and two calls of
  \<open>getCachedStats\<close> that overlap while its entry is stale call \<open>getItemsFn\<close> twice;
  both callers wait for their own load.
\<close>

theorem concurrent_get_each_loads:
  "(\<not> itemsCacheValid st t1 \<and> \<not> itemsCacheValid st t2 \<longrightarrow>
      fst (getItems_start st t1) = Awaiting t1 \<and>
      fst (getItems_start (snd (getItems_start st t1)) t2) = Awaiting t2 \<and>
      readFileCalls (snd (getItems_start (snd (getItems_start st t1)) t2)) =
        readFileCalls st + 2) \<and>
   (\<not> statsCacheValid ss t1 \<and> \<not> statsCacheValid ss t2 \<longrightarrow>
      fst (getCachedStats_start ss t1) = Awaiting t1 \<and>
      fst (getCachedStats_start (snd (getCachedStats_start ss t1)) t2) = Awaiting t2 \<and>
      getItemsFnCalls (snd (getCachedStats_start (snd (getCachedStats_start ss t1)) t2)) =
        getItemsFnCalls ss + 2)"
  by (simp add: getItems_start_def itemsCacheValid_def getCachedStats_start_def
      statsCacheValid_def)

theorem concurrent_get_each_loads_witness:
  "\<not> itemsCacheValid staleCache 30000 \<and> \<not> itemsCacheValid staleCache 30001 \<and>
   readFileCalls (snd (getItems_start (snd (getItems_start staleCache 30000)) 30001)) = 3 \<and>
   \<not> statsCacheValid initial_stats_module 5 \<and> \<not> statsCacheValid initial_stats_module 6 \<and>
   getItemsFnCalls
     (snd (getCachedStats_start (snd (getCachedStats_start initial_stats_module 5)) 6)) = 2"
proof -
  have a: "\<not> itemsCacheValid staleCache 30000" "\<not> itemsCacheValid staleCache 30001"
    by (simp_all add: staleCache_def itemsCacheValid_def ITEMS_CACHE_TTL_def)
  have b: "\<not> statsCacheValid initial_stats_module 5" "\<not> statsCacheValid initial_stats_module 6"
    by (simp_all add: initial_stats_module_def statsCacheValid_def)
  have c: "readFileCalls staleCache = 1" "getItemsFnCalls initial_stats_module = 0"
    by (simp_all add: staleCache_def initial_stats_module_def)
  from concurrent_get_each_loads [of staleCache 30000 30001]
    concurrent_get_each_loads [of _ 5 6 initial_stats_module] a b c
  show ?thesis by simp
qed

section \<open>The stats cache\<close>

lemma removeAll_only:
  assumes "set ts \<subseteq> {h}"
  shows "removeAll h ts = []"
proof -
  from assms have "set (removeAll h ts) = {}" by auto
  then show ?thesis by (simp only: set_empty)
qed

lemma timersTracked_initial: "timersTracked initial_stats_module"
  by (simp add: timersTracked_def initial_stats_module_def)

lemma pendingTimers_invalidateCache:
  assumes "timersTracked st"
  shows "pendingTimers (invalidateCache st) = []"
proof (cases "cacheTimeout st")
  case None
  with assms show ?thesis
    by (simp add: timersTracked_def invalidateCache_def)
next
  case (Some h)
  with assms have "set (pendingTimers st) \<subseteq> {h}"
    by (simp add: timersTracked_def)
  then have "removeAll h (pendingTimers st) = []"
    by (rule removeAll_only)
  with Some show ?thesis
    by (simp add: invalidateCache_def clearTimeout_def)
qed

lemma timersTracked_invalidateCache:
  "timersTracked st \<Longrightarrow> timersTracked (invalidateCache st)"
  by (simp add: timersTracked_def [of "invalidateCache st"] pendingTimers_invalidateCache)

lemma timersTracked_timerFires: "timersTracked st \<Longrightarrow> timersTracked (timerFires h st)"
  by (auto simp: timersTracked_def timerFires_def)

lemma timersTracked_watchEvent: "timersTracked st \<Longrightarrow> timersTracked (watchEvent w c st)"
  by (simp add: watchEvent_def timersTracked_invalidateCache)

lemma timersTracked_start:
  "timersTracked st \<Longrightarrow> timersTracked (snd (getCachedStats_start st now))"
  by (simp add: timersTracked_def getCachedStats_start_def)

lemma timersTracked_resume:
  assumes "timersTracked st"
  shows "timersTracked (snd (getCachedStats_resume now settled st))"
proof (cases settled)
  case (Inl e)
  with assms show ?thesis by (simp add: getCachedStats_resume_def)
next
  case (Inr v)
  show ?thesis
  proof (cases "cacheTimeout st")
    case None
    with assms have "pendingTimers st = []"
      by (simp add: timersTracked_def)
    with None Inr show ?thesis
      by (simp add: getCachedStats_resume_def timersTracked_def initFileWatcher_def Let_def
          split: option.splits)
  next
    case (Some h)
    with assms have "set (pendingTimers st) \<subseteq> {h}"
      by (simp add: timersTracked_def)
    then have "removeAll h (pendingTimers st) = []"
      by (rule removeAll_only)
    with Some Inr show ?thesis
      by (simp add: getCachedStats_resume_def timersTracked_def initFileWatcher_def
          clearTimeout_def Let_def split: option.splits)
  qed
qed

text \<open>The invariant holds in every state the module can reach.\<close>

lemma statsReachable_timersTracked:
  "statsReachable st \<Longrightarrow> timersTracked st"
proof (induction rule: statsReachable.induct)
  case initial
  show ?case by (rule timersTracked_initial)
next
  case (start st now)
  then show ?case by (simp only: timersTracked_start)
next
  case (resume st now settled)
  then show ?case by (simp only: timersTracked_resume)
next
  case (invalidate st)
  then show ?case by (simp only: timersTracked_invalidateCache)
next
  case (timer st h)
  then show ?case by (simp only: timersTracked_timerFires)
next
  case (watch st w isChange)
  then show ?case by (simp only: timersTracked_watchEvent)
qed

lemma warmStats_eq:
  "warmStats = \<lparr>statsCache = Some (calculateStats (Array [laptop])), statsCacheTimestamp = 1000,
                cacheTimeout = Some 1, watcher = Some 0, pendingTimers = [1],
                openWatchers = [0], nextHandle = 2, getItemsFnCalls = 1\<rparr>"
  by (simp add: warmStats_def getCachedStats_def getCachedStats_start_def statsCacheValid_def
      initial_stats_module_def getCachedStats_resume_def initFileWatcher_def Let_def)

lemma statsReachable_warmStats: "statsReachable warmStats"
proof -
  let ?s1 = "snd (getCachedStats_start initial_stats_module 1000)"
  have "statsReachable ?s1"
    by (rule statsReachable.start) (rule statsReachable.initial)
  then have "statsReachable (snd (getCachedStats_resume 1000 (Inr (Array [laptop])) ?s1))"
    by (rule statsReachable.resume)
  moreover have "warmStats = snd (getCachedStats_resume 1000 (Inr (Array [laptop])) ?s1)"
    by (simp add: warmStats_def getCachedStats_def getCachedStats_start_def
        statsCacheValid_def initial_stats_module_def)
  ultimately show ?thesis by simp
qed

lemma statsReachable_raceState: "statsReachable raceState"
  unfolding raceState_def
  by (intro statsReachable.resume statsReachable.invalidate statsReachable.start
      statsReachable.initial)

text \<open>
  C8 as stated does not hold. A call of \<open>getCachedStats\<close> starts on the empty cache at
  time 1000 and waits for \<open>getItemsFn\<close>; \<open>invalidateCache\<close> runs; the waiting call
  resumes and caches the statistics of what it had asked for. The next call, at time
  2000, is answered from the cache: it returns those statistics, calls nothing and
  leaves the state as it is, although \<open>getItemsFn\<close> would now resolve with other items.
\<close>

theorem invalidate_then_cached_counterexample:
  "statsReachable raceState \<and>
   raceState =
     snd (getCachedStats_resume 1000 (Inr (Array [laptop]))
            (invalidateCache (snd (getCachedStats_start initial_stats_module 1000)))) \<and>
   getCachedStats raceState 2000 (Inr (Array [cable])) =
     (Inr (calculateStats (Array [laptop])), raceState) \<and>
   getItemsFnCalls raceState = 1"
proof -
  have "getCachedStats raceState 2000 (Inr (Array [cable])) =
          (Inr (calculateStats (Array [laptop])), raceState) \<and>
        getItemsFnCalls raceState = 1"
    by (simp add: raceState_def getCachedStats_def getCachedStats_start_def
        statsCacheValid_def initial_stats_module_def getCachedStats_resume_def
        initFileWatcher_def invalidateCache_def STATS_CACHE_TTL_def Let_def)
  with statsReachable_raceState show ?thesis by (simp add: raceState_def)
qed

text \<open>
  C8 as amended. In every state the module can reach, \<open>invalidateCache\<close> clears the
  cached value, resets \<open>cacheTimeout\<close> and leaves no expiry timer pending, so a
  \<open>getCachedStats\<close> that starts in the state \<open>invalidateCache\<close> leaves, at whatever
  time, does not answer from the cache: it calls \<open>getItemsFn\<close>, aggregates what that
  returns, and caches and returns the new statistics. A call that was waiting for
  \<open>getItemsFn\<close> when \<open>invalidateCache\<close> ran still caches its result when it resumes,
  under the time at which it started; a call after that, within the TTL of that time, is
  answered from the cache and computes nothing.
\<close>

theorem invalidateCache_forces_recompute:
  assumes "statsReachable st"
  shows "statsCache (invalidateCache st) = None \<and>
         cacheTimeout (invalidateCache st) = None \<and>
         pendingTimers (invalidateCache st) = [] \<and>
         fst (getCachedStats_start (invalidateCache st) now) = Awaiting now \<and>
         getItemsFnCalls (snd (getCachedStats (invalidateCache st) now settled)) =
           getItemsFnCalls st + 1 \<and>
         fst (getCachedStats (invalidateCache st) now (Inr v)) = Inr (calculateStats v) \<and>
         statsCache (snd (getCachedStats (invalidateCache st) now (Inr v))) =
           Some (calculateStats v) \<and>
         statsCache (snd (getCachedStats_resume t (Inr w) (invalidateCache st))) =
           Some (calculateStats w) \<and>
         (now - t < STATS_CACHE_TTL \<longrightarrow>
            getCachedStats (snd (getCachedStats_resume t (Inr w) (invalidateCache st))) now
                settled =
              (Inr (calculateStats w),
               snd (getCachedStats_resume t (Inr w) (invalidateCache st))))"
proof -
  from assms have i: "timersTracked st"
    by (rule statsReachable_timersTracked)
  have c: "statsCache (invalidateCache st) = None"
    by (simp add: invalidateCache_def clearTimeout_def Let_def split: option.splits)
  have tm: "cacheTimeout (invalidateCache st) = None"
    by (simp add: invalidateCache_def clearTimeout_def Let_def split: option.splits)
  have n: "getItemsFnCalls (invalidateCache st) = getItemsFnCalls st"
    by (simp add: invalidateCache_def clearTimeout_def Let_def split: option.splits)
  have s: "getCachedStats_start (invalidateCache st) now =
             (Awaiting now, (invalidateCache st)\<lparr>getItemsFnCalls := getItemsFnCalls st + 1\<rparr>)"
    by (simp add: getCachedStats_start_def statsCacheValid_def c n)
  have g: "getItemsFnCalls (snd (getCachedStats_resume now settled s')) = getItemsFnCalls s'"
    for s'
    by (cases settled)
      (simp_all add: getCachedStats_resume_def initFileWatcher_def clearTimeout_def Let_def
        split: option.splits)
  have r: "fst (getCachedStats_resume now (Inr v) s') = Inr (calculateStats v)" for s'
    by (simp add: getCachedStats_resume_def Let_def)
  have r': "statsCache (snd (getCachedStats_resume u (Inr x) s')) = Some (calculateStats x)"
    for s' u x
    by (simp add: getCachedStats_resume_def initFileWatcher_def clearTimeout_def Let_def
        split: option.splits)
  have ts: "statsCacheTimestamp (snd (getCachedStats_resume u (Inr x) s')) = u" for s' u x
    by (simp add: getCachedStats_resume_def initFileWatcher_def clearTimeout_def Let_def
        split: option.splits)
  have hit: "now - t < STATS_CACHE_TTL \<longrightarrow>
      getCachedStats (snd (getCachedStats_resume t (Inr w) (invalidateCache st))) now settled =
        (Inr (calculateStats w), snd (getCachedStats_resume t (Inr w) (invalidateCache st)))"
    by (simp add: getCachedStats_def getCachedStats_start_def statsCacheValid_def r' ts)
  show ?thesis
    using c tm pendingTimers_invalidateCache [OF i] hit
    by (simp add: getCachedStats_def s g r r')
qed

theorem invalidateCache_forces_recompute_witness:
  "statsReachable warmStats \<and>
   statsCacheValid warmStats 2000 \<and>
   pendingTimers warmStats = [1] \<and>
   statsCache (invalidateCache warmStats) = None \<and>
   cacheTimeout (invalidateCache warmStats) = None \<and>
   pendingTimers (invalidateCache warmStats) = [] \<and>
   fst (getCachedStats_start (invalidateCache warmStats) 2000) = Awaiting 2000 \<and>
   getItemsFnCalls
     (snd (getCachedStats (invalidateCache warmStats) 2000 (Inr (Array [cable])))) = 2 \<and>
   fst (getCachedStats (invalidateCache warmStats) 2000 (Inr (Array [cable]))) =
     Inr (calculateStats (Array [cable])) \<and>
   (2000::int) - 1500 < STATS_CACHE_TTL \<and>
   fst (getCachedStats
          (snd (getCachedStats_resume 1500 (Inr (Array [laptop])) (invalidateCache warmStats)))
          2000 (Inr (Array [cable]))) =
     Inr (calculateStats (Array [laptop]))"
proof -
  have a: "statsReachable warmStats"
    by (rule statsReachable_warmStats)
  have b: "statsCacheValid warmStats 2000"
    by (simp add: warmStats_eq statsCacheValid_def STATS_CACHE_TTL_def)
  have c: "pendingTimers warmStats = [1]" "getItemsFnCalls warmStats = 1"
    by (simp_all add: warmStats_eq)
  have d: "(2000::int) - 1500 < STATS_CACHE_TTL"
    by (simp add: STATS_CACHE_TTL_def)
  from invalidateCache_forces_recompute [OF a, of 2000 "Inr (Array [cable])" "Array [cable]"
      1500 "Array [laptop]"] a b c d
  show ?thesis by simp
qed

section \<open>The aggregator\<close>

text \<open>
  C10. On an argument that is not an array (\<open>null\<close>, \<open>undefined\<close>, a number, a string,
  a plain object) \<open>calculateStats\<close> returns the zero-value statistics; being a total
  function of its argument, it raises nothing.
\<close>

theorem calculateStats_non_array:
  assumes "\<not> isArray v"
  shows "calculateStats v = zeroStats"
  using assms by (cases v) (simp_all add: calculateStats_def isArray_def)

theorem calculateStats_non_array_witness:
  "\<not> isArray Null \<and> calculateStats Null = zeroStats \<and>
   \<not> isArray Undefined \<and> calculateStats Undefined = zeroStats \<and>
   \<not> isArray (Object [(''length'', Number 0)]) \<and>
   calculateStats (Object [(''length'', Number 0)]) = zeroStats"
  using calculateStats_non_array [of Null] calculateStats_non_array [of Undefined]
    calculateStats_non_array [of "Object [(''length'', Number 0)]"]
  by (simp add: isArray_def)

text \<open>
  What \<open>calculateStats\<close> computes on an array: the item count; zero for the three price
  fields when no price parses; and, as long as no category is the name of a property of
  \<open>Object.prototype\<close>, the number of items of each category.
\<close>

lemma calculateStats_empty: "calculateStats (Array []) = zeroStats"
  by (simp add: calculateStats_def)

lemma calculateStats_totalItems: "totalItems (calculateStats (Array xs)) = length xs"
  by (simp add: calculateStats_def zeroStats_def Let_def)

lemma calculateStats_no_price:
  assumes "\<forall>item \<in> set xs. price item = PNotNumeric"
  shows "averagePrice (calculateStats (Array xs)) = Finite 0 \<and>
         minPrice (calculateStats (Array xs)) = Finite 0 \<and>
         maxPrice (calculateStats (Array xs)) = Finite 0"
proof -
  from assms
  have "filter (\<lambda>p. p \<noteq> NotANumber) (map (\<lambda>item. parseFloat (price item)) xs) = []"
    by (simp add: filter_empty_conv parseFloat_def)
  then show ?thesis
    by (simp add: calculateStats_def zeroStats_def Let_def)
qed

lemma bumpCategory_counts:
  assumes "inheritedAsString k = None"
      and "\<And>j. cats j = (if c j = 0 then None else Some (Count (c j)))"
  shows "bumpCategory cats k j =
           (if (c(k := c k + 1)) j = 0 then None else Some (Count ((c(k := c k + 1)) j)))"
  using assms by (simp add: bumpCategory_def)

lemma foldl_bumpCategory_counts:
  assumes "\<forall>item \<in> set xs. inheritedAsString (categoryOf item) = None"
      and "\<And>j. cats j = (if c j = 0 then None else Some (Count (c j)))"
  shows "foldl (\<lambda>cats item. bumpCategory cats (categoryOf item)) cats xs j =
           (if c j + categoryCount xs j = 0 then None
            else Some (Count (c j + categoryCount xs j)))"
  using assms
proof (induction xs arbitrary: cats c)
  case Nil
  then show ?case by (simp add: categoryCount_def)
next
  case (Cons x xs)
  let ?k = "categoryOf x"
  let ?c = "c(?k := c ?k + 1)"
  from Cons.prems(1) have k: "inheritedAsString ?k = None" by simp
  have b: "bumpCategory cats ?k j = (if ?c j = 0 then None else Some (Count (?c j)))" for j
    using k Cons.prems(2) by (rule bumpCategory_counts)
  from Cons.prems(1) have r: "\<forall>item \<in> set xs. inheritedAsString (categoryOf item) = None"
    by simp
  have "foldl (\<lambda>cats item. bumpCategory cats (categoryOf item)) (bumpCategory cats ?k) xs j =
          (if ?c j + categoryCount xs j = 0 then None
           else Some (Count (?c j + categoryCount xs j)))"
    using r b by (rule Cons.IH)
  moreover have "?c j + categoryCount xs j = c j + categoryCount (x # xs) j"
    by (simp add: categoryCount_def)
  ultimately show ?case by simp
qed

lemma calculateStats_categories:
  assumes "\<forall>item \<in> set xs. inheritedAsString (categoryOf item) = None"
  shows "categories (calculateStats (Array xs)) k =
           (if categoryCount xs k = 0 then None else Some (Count (categoryCount xs k)))"
proof (cases "xs = []")
  case True
  then show ?thesis by (simp add: calculateStats_def zeroStats_def categoryCount_def)
next
  case False
  have "foldl (\<lambda>cats item. bumpCategory cats (categoryOf item)) Map.empty xs k =
          (if (\<lambda>_. 0) k + categoryCount xs k = 0 then None
           else Some (Count ((\<lambda>_. 0) k + categoryCount xs k)))"
    using assms by (rule foldl_bumpCategory_counts) simp
  with False show ?thesis by (simp add: calculateStats_def Let_def)
qed

text \<open>
  The price statistics are computed in doubles. With the prices 100, 200 and 150 of the
  repository's test every step is exact.
\<close>

lemma floor_rat_numeral: "\<lfloor>numeral a / numeral b :: rat\<rfloor> = numeral a div numeral b"
  by (metis floor_divide_of_int_eq of_int_numeral)

lemma toDouble_0: "toDouble 0 = Finite 0"
  by (simp add: toDouble_def fl_def)

lemma toDouble_numeral:
  assumes "(numeral k :: int) < 2 ^ 53"
  shows "toDouble (numeral k) = Finite (numeral k)"
proof -
  from assms have "\<bar>numeral k :: int\<bar> < 2 ^ 53" by simp
  then have "fl (of_int (numeral k)) = Some (of_int (numeral k))" by (rule fl_of_int_small)
  then show ?thesis by (simp add: toDouble_def)
qed

lemma calculateStats_test_items:
  "calculateStats (Array
      [\<lparr>item_id = 1, name = Some ''Item 1'', description = None, category = Some ''A'',
         price = PNumber 100\<rparr>,
       \<lparr>item_id = 2, name = Some ''Item 2'', description = None, category = Some ''A'',
         price = PNumber 200\<rparr>,
       \<lparr>item_id = 3, name = Some ''Item 3'', description = None, category = Some ''B'',
         price = PNumber 150\<rparr>]) =
   \<lparr>totalItems = 3, averagePrice = Finite 150, minPrice = Finite 100, maxPrice = Finite 200,
    categories = [''A'' \<mapsto> Count 2, ''B'' \<mapsto> Count 1]\<rparr>"
  by (simp add: calculateStats_def parseFloat_def toDouble_numeral double_div_length_def
      toFixed2_def double_min_def double_max_def categoryOf_def bumpCategory_def
      inheritedAsString_def objectPrototypeMethods_def floor_rat_numeral numeral_2_eq_2
      Let_def)

text \<open>
  With the prices 0.375, 0, 0, 0, 0 the mean is 0.075 exactly, which is no double: the
  quotient is the double just below it, \<open>toFixed(2)\<close> prints 0.07, and that is the
  average the code reports.
\<close>

lemma fl_3_8: "fl (3 / 8) = Some (3 / 8)"
proof -
  have "roundMagnitude (3 / 8) = 3 / 8"
    by (rule roundMagnitude_exact [of "- 2" _ 6755399441055744]) (simp_all add: twoPow_def)
  moreover have "\<not> twoPow 1024 \<le> 3 / 8" by (simp add: twoPow_def)
  ultimately show ?thesis by (simp add: fl_def)
qed

lemma fl_3_40: "fl (3 / 40) = Some (5404319552844595 / 72057594037927936)"
proof -
  have lo: "twoPow (- 4) \<le> 3 / 40" and hi: "3 / 40 < twoPow (- 4 + 1)"
    by (simp_all add: twoPow_def)
  have m: "max (- 4) (- 1022) - 52 = (- 56 :: int)" by simp
  have t: "roundHalfEven (3 / 40 / twoPow (- 56)) = 5404319552844595"
    by (rule roundHalfEven_nearest) (simp_all add: twoPow_def)
  have "roundMagnitude (3 / 40) =
          of_int (roundHalfEven (3 / 40 / twoPow (max (- 4) (- 1022) - 52))) *
            twoPow (max (- 4) (- 1022) - 52)"
    by (rule roundMagnitude_unfold [OF lo hi])
  also have "\<dots> = of_int 5404319552844595 * twoPow (- 56)"
    by (simp only: m t)
  also have "\<dots> = 5404319552844595 / 72057594037927936"
    by (simp add: twoPow_def)
  finally have r: "roundMagnitude (3 / 40) = 5404319552844595 / 72057594037927936" .
  have "\<not> twoPow 1024 \<le> 5404319552844595 / 72057594037927936"
    by (simp add: twoPow_def)
  with r show ?thesis by (simp add: fl_def)
qed

lemma averagePrice_0_375:
  "averagePrice (calculateStats (Array
      [cable\<lparr>price := PNumber (3 / 8)\<rparr>, cable\<lparr>price := PNumber 0\<rparr>,
       cable\<lparr>price := PNumber 0\<rparr>, cable\<lparr>price := PNumber 0\<rparr>,
       cable\<lparr>price := PNumber 0\<rparr>])) =
   toDouble (7 / 100)"
proof -
  have a: "toDouble (3 / 8) = Finite (3 / 8)"
    by (simp add: toDouble_def fl_3_8)
  have b: "toDouble (3 / 40) = Finite (5404319552844595 / 72057594037927936)"
    by (simp add: toDouble_def fl_3_40)
  have c: "toFixed2 (Finite (5404319552844595 / 72057594037927936)) = toDouble (7 / 100)"
    by (simp add: toFixed2_def floor_rat_numeral)
  show ?thesis
    by (simp add: calculateStats_def parseFloat_def toDouble_0 a double_div_length_def b c
        Let_def)
qed

text \<open>
  C4. The claim asks for a \<open>categories\<close> mapping that counts every item under its
  category. For an item whose category is \<open>constructor\<close> the code reads the inherited
  \<open>Object\<close> function where it expects a count, and stores a string under that key
  instead of the count 1.
\<close>

theorem calculateStats_inherited_category:
  "categories (calculateStats (Array [gadget])) ''constructor'' =
     Some (Text ''function Object() { [native code] }1'') \<and>
   categories (calculateStats (Array [gadget])) ''constructor'' \<noteq> Some (Count 1)"
  by (simp add: calculateStats_def gadget_def categoryOf_def bumpCategory_def
      inheritedAsString_def Let_def)

end
